theory Spec2Isabelle
  imports Complex_Main
begin

section \<open>Cymatic: the Chladni field, the frequency model and the particle integrator\<close>

text \<open>
  The definitions below follow \<^verbatim>\<open>src/script.js\<close>. The double-precision numbers of
  the step are modelled as real numbers with exact arithmetic; overflow is not part of
  the model. Three things that exact real arithmetic leaves out are modelled where a
  statement depends on them: the rounding to single precision of every write to the
  \<^verbatim>\<open>Float32Array\<close> stores (\<open>fround\<close> and the functions named \<open>_f32\<close>), the value of
  the constant \<^verbatim>\<open>Math.PI\<close> (\<open>Math_PI\<close> and \<open>chladni_with\<close>), and the special values
  NaN and \<^verbatim>\<open>Infinity\<close> (\<open>jsnum\<close> and the functions named \<open>_js\<close>). The values
  \<^verbatim>\<open>Math.random()\<close> returns are an explicit input: a sequence \<open>rnd\<close> of draws,
  consumed in call order through a counter that is threaded through the state.
\<close>

subsection \<open>Constants and the shared parameter object\<close>

definition PLANE_SIZE :: real where
  "PLANE_SIZE = 2.4"

text \<open>
  \<^verbatim>\<open>PARAMS\<close> of \<^verbatim>\<open>controls.js\<close>. The fields \<^verbatim>\<open>m\<close> and \<^verbatim>\<open>n\<close> are
  written \<open>mode_m\<close> and \<open>mode_n\<close>; \<^verbatim>\<open>volume\<close> and \<^verbatim>\<open>isPlaying\<close> are not read by
  the functions modelled here.
\<close>

record PARAMS =
  mode_m :: real
  mode_n :: real
  patternMixX :: real
  patternMixY :: real
  vibrationStrength :: real
  particles :: nat

subsection \<open>The field function (\<^verbatim>\<open>chladni\<close>, lines 21--34)\<close>

definition chladni :: "PARAMS \<Rightarrow> real \<Rightarrow> real \<Rightarrow> real \<Rightarrow> real \<Rightarrow> real" where
  "chladni P x y m n =
     (let x = (x + 1) / 2;
          y = (y + 1) / 2;
          pattern1 = sin (pi * n * x) * sin (pi * m * y);
          pattern2 = sin (pi * m * x) * sin (pi * n * y)
      in patternMixX P * pattern1 + patternMixY P * pattern2)"

text \<open>
  The field as the specification words it, with the coefficients \<open>a\<close> and \<open>b\<close> as
  arguments: remap, then mix the two standing waves.
\<close>

definition field_spec :: "real \<Rightarrow> real \<Rightarrow> real \<Rightarrow> real \<Rightarrow> real \<Rightarrow> real \<Rightarrow> real" where
  "field_spec x y m n a b =
     a * sin (pi * n * ((x + 1) / 2)) * sin (pi * m * ((y + 1) / 2)) +
     b * sin (pi * m * ((x + 1) / 2)) * sin (pi * n * ((y + 1) / 2))"

subsection \<open>The frequency model (\<^verbatim>\<open>calculateFrequency\<close>, lines 41--50)\<close>

definition calculateFrequency :: "real \<Rightarrow> real \<Rightarrow> real \<Rightarrow> real \<Rightarrow> real" where
  "calculateFrequency m n a b =
     (let baseFreq = sqrt (m * m + n * n) * 55;
          mixingEffect = sqrt (a * a + b * b)
      in min (max (baseFreq * mixingEffect) 20) 2000)"

subsection \<open>The particle store\<close>

text \<open>
  The two parallel arrays \<^verbatim>\<open>particlePositions\<close> (three entries per particle, the third
  always written as 0) and \<^verbatim>\<open>particleVelocities\<close> (two entries per particle). The array
  behind \<^verbatim>\<open>particles.geometry.attributes.position.array\<close> is the same object as
  \<^verbatim>\<open>particlePositions\<close>; the global \<^verbatim>\<open>particles\<close> is unset before the first
  \<^verbatim>\<open>createParticles\<close>, which is the store option \<open>None\<close> below. A write to a typed
  array beyond its length is ignored, as \<open>xs[i := v]\<close> is.
\<close>

record store =
  particlePositions :: "real list"
  particleVelocities :: "real list"

definition currentCount :: "store \<Rightarrow> nat" where
  "currentCount s = length (particlePositions s) div 3"

text \<open>The shape every store built by \<^verbatim>\<open>createParticles\<close> has.\<close>

definition store_wf :: "store \<Rightarrow> bool" where
  "store_wf s \<longleftrightarrow>
     length (particlePositions s) = currentCount s * 3 \<and>
     length (particleVelocities s) = currentCount s * 2"

text \<open>Particle \<open>i\<close> of a store: its position and its velocity.\<close>

definition particle :: "store \<Rightarrow> nat \<Rightarrow> real \<times> real \<times> real \<times> real" where
  "particle s i =
     (particlePositions s ! (i * 3), particlePositions s ! (i * 3 + 1),
      particleVelocities s ! (i * 2), particleVelocities s ! (i * 2 + 1))"

subsection \<open>Creating and resizing the store (\<^verbatim>\<open>createParticles\<close>, lines 100--153)\<close>

text \<open>The copy loop of lines 112--121.\<close>

function copyExisting ::
  "real list \<Rightarrow> real list \<Rightarrow> nat \<Rightarrow> nat \<Rightarrow> real list \<times> real list \<Rightarrow> real list \<times> real list"
where
  "copyExisting currentPositions currentVelocities preserveCount i (newPositions, newVelocities) =
     (if i < preserveCount then
        copyExisting currentPositions currentVelocities preserveCount (Suc i)
          (newPositions[i * 3 := currentPositions ! (i * 3),
                        i * 3 + 1 := currentPositions ! (i * 3 + 1),
                        i * 3 + 2 := currentPositions ! (i * 3 + 2)],
           newVelocities[i * 2 := currentVelocities ! (i * 2),
                         i * 2 + 1 := currentVelocities ! (i * 2 + 1)])
      else (newPositions, newVelocities))"
  by pat_completeness auto
termination
  by (relation "measure (\<lambda>(cp, cv, preserveCount, i, nw). preserveCount - i)") auto

text \<open>
  The growth loop of lines 124--137: three draws for each new particle, in the order the
  source calls \<^verbatim>\<open>Math.random()\<close>. With an empty old store the source reads
  \<^verbatim>\<open>undefined\<close> at index 0 and stores NaN; the model's value there is unspecified.
\<close>

function spawnNear ::
  "real list \<Rightarrow> real list \<Rightarrow> nat \<Rightarrow> nat \<Rightarrow> (nat \<Rightarrow> real) \<Rightarrow> nat \<Rightarrow>
   (real list \<times> real list) \<times> nat \<Rightarrow> (real list \<times> real list) \<times> nat"
where
  "spawnNear currentPositions currentVelocities preserveCount count rnd i ((newPositions, newVelocities), k) =
     (if i < count then
        (let sourceIdx = nat \<lfloor>rnd k * real preserveCount\<rfloor>;
             offsetScale = 0.1
         in spawnNear currentPositions currentVelocities preserveCount count rnd (Suc i)
              ((newPositions[i * 3 := currentPositions ! (sourceIdx * 3) + (rnd (k + 1) - 0.5) * offsetScale,
                             i * 3 + 1 := currentPositions ! (sourceIdx * 3 + 1) + (rnd (k + 2) - 0.5) * offsetScale,
                             i * 3 + 2 := 0],
                newVelocities[i * 2 := currentVelocities ! (sourceIdx * 2) * 0.5,
                              i * 2 + 1 := currentVelocities ! (sourceIdx * 2 + 1) * 0.5]),
               k + 3))
      else ((newPositions, newVelocities), k))"
  by pat_completeness auto
termination
  by (relation "measure (\<lambda>(cp, cv, preserveCount, count, rnd, i, nw). count - i)") auto

text \<open>The first-time loop of lines 145--152: two draws for each particle.\<close>

function initRandom ::
  "nat \<Rightarrow> (nat \<Rightarrow> real) \<Rightarrow> nat \<Rightarrow> (real list \<times> real list) \<times> nat \<Rightarrow> (real list \<times> real list) \<times> nat"
where
  "initRandom count rnd i ((newPositions, newVelocities), k) =
     (if i < count then
        initRandom count rnd (Suc i)
          ((newPositions[i * 3 := (rnd k - 0.5) * PLANE_SIZE,
                         i * 3 + 1 := (rnd (k + 1) - 0.5) * PLANE_SIZE,
                         i * 3 + 2 := 0],
            newVelocities[i * 2 := 0, i * 2 + 1 := 0]),
           k + 2)
      else ((newPositions, newVelocities), k))"
  by pat_completeness auto
termination
  by (relation "measure (\<lambda>(count, rnd, i, nw). count - i)") auto

text \<open>
  \<^verbatim>\<open>createParticles\<close>: the state is the store (if any) and the number of draws made so
  far. The rendering objects built in lines 155--187 hold the new position array and
  nothing else of the state.
\<close>

definition createParticles ::
  "PARAMS \<Rightarrow> (nat \<Rightarrow> real) \<Rightarrow> store option \<times> nat \<Rightarrow> store option \<times> nat"
where
  "createParticles P rnd st =
     (let newPositions = replicate (particles P * 3) 0;
          newVelocities = replicate (particles P * 2) 0;
          ((newPositions, newVelocities), k) =
            (case fst st of
               Some cur \<Rightarrow>
                 (let currentPositions = particlePositions cur;
                      currentVelocities = particleVelocities cur;
                      preserveCount = min (currentCount cur) (particles P);
                      copied = copyExisting currentPositions currentVelocities preserveCount 0
                                 (newPositions, newVelocities)
                  in spawnNear currentPositions currentVelocities preserveCount (particles P) rnd
                       preserveCount (copied, snd st))
             | None \<Rightarrow> initRandom (particles P) rnd 0 ((newPositions, newVelocities), snd st))
      in (Some \<lparr>particlePositions = newPositions, particleVelocities = newVelocities\<rparr>, k))"

subsection \<open>The integrator (\<^verbatim>\<open>animate\<close>, lines 214--294)\<close>

text \<open>
  The body of the loop for one particle (lines 232--283), from the values read in lines
  227--230 to the values stored in lines 286--289. \<open>r\<close> is the value of the
  \<^verbatim>\<open>Math.random()\<close> call of line 242, which happens only in the active branch.
\<close>

definition particle_update ::
  "PARAMS \<Rightarrow> bool \<Rightarrow> real \<Rightarrow> real \<Rightarrow> real \<times> real \<times> real \<times> real \<Rightarrow> real \<times> real \<times> real \<times> real"
where
  "particle_update P isAudioActive audioLevel r pt =
     (case pt of (x, y, vx, vy) \<Rightarrow>
      let x_norm = x / (PLANE_SIZE / 2);
          y_norm = y / (PLANE_SIZE / 2);
          (vx, vy) =
            (if isAudioActive then
               (let value = chladni P x_norm y_norm (mode_m P) (mode_n P);
                    force = value * vibrationStrength P * (1 + audioLevel * 2);
                    randomAngle = r * pi * 2;
                    randomness = 0.07;
                    vx = vx + force * cos randomAngle * randomness;
                    vy = vy + force * sin randomAngle * randomness
                in (vx * 0.85, vy * 0.85))
             else
               (let vx = vx * 0.85;
                    vy = vy * 0.85;
                    speed = sqrt (vx * vx + vy * vy)
                in if speed > 0.001 then
                     (let dampingFactor = max 0.5 (1 - speed * 2)
                      in (vx * dampingFactor, vy * dampingFactor))
                   else (0, 0)));
          x = x + vx;
          y = y + vy;
          bound = PLANE_SIZE / 2 - 0.01;
          bounceDamping = 0.7;
          (x, vx) = (if \<bar>x\<bar> > bound then (sgn x * bound, vx * - bounceDamping) else (x, vx));
          (y, vy) = (if \<bar>y\<bar> > bound then (sgn y * bound, vy * - bounceDamping) else (y, vy))
      in (x, y, vx, vy))"

text \<open>
  One iteration of the loop at index \<open>i\<close>: read, update, store. At an index beyond
  the arrays the source reads \<^verbatim>\<open>undefined\<close> and its writes are ignored; in the model
  the values read there are unspecified and the writes are ignored as well, so such an
  iteration leaves a well-formed store as it is. The values written here are the doubles
  of the step; \<open>update_at_f32\<close> below adds the rounding of the array.
\<close>

definition update_at :: "PARAMS \<Rightarrow> bool \<Rightarrow> real \<Rightarrow> real \<Rightarrow> nat \<Rightarrow> store \<Rightarrow> store" where
  "update_at P isAudioActive audioLevel r i s =
     (let positions = particlePositions s;
          velocities = particleVelocities s;
          x = positions ! (i * 3);
          y = positions ! (i * 3 + 1);
          vx = velocities ! (i * 2);
          vy = velocities ! (i * 2 + 1);
          (x, y, vx, vy) = particle_update P isAudioActive audioLevel r (x, y, vx, vy)
      in s\<lparr>particlePositions := positions[i * 3 := x, i * 3 + 1 := y],
            particleVelocities := velocities[i * 2 := vx, i * 2 + 1 := vy]\<rparr>)"

text \<open>
  The loop of line 226. The draw counter advances by one for each particle when audio is
  active and not at all otherwise.
\<close>

function animate_loop ::
  "PARAMS \<Rightarrow> bool \<Rightarrow> real \<Rightarrow> (nat \<Rightarrow> real) \<Rightarrow> nat \<Rightarrow> store \<times> nat \<Rightarrow> store \<times> nat"
where
  "animate_loop P isAudioActive audioLevel rnd i (s, k) =
     (if i < particles P then
        animate_loop P isAudioActive audioLevel rnd (Suc i)
          (update_at P isAudioActive audioLevel (rnd k) i s, if isAudioActive then Suc k else k)
      else (s, k))"
  by pat_completeness auto
termination
  by (relation "measure (\<lambda>(P, a, l, rnd, i, st). particles P - i)") auto

text \<open>
  One frame. \<open>audioEnabled\<close> and \<open>audioLevel\<close> are what \<^verbatim>\<open>audio.isAudioEnabled()\<close> and
  \<^verbatim>\<open>audio.getAudioLevel()\<close> return in this frame.
\<close>

definition animate ::
  "PARAMS \<Rightarrow> bool \<Rightarrow> real \<Rightarrow> (nat \<Rightarrow> real) \<Rightarrow> store option \<times> nat \<Rightarrow> store option \<times> nat"
where
  "animate P audioEnabled audioLevel rnd st =
     (case fst st of
        None \<Rightarrow> st
      | Some s \<Rightarrow>
          (let isAudioActive = (audioEnabled \<and> audioLevel > 0.01);
               (s', k) = animate_loop P isAudioActive audioLevel rnd 0 (s, snd st)
           in (Some s', k)))"

text \<open>
  The simulation loop calls \<^verbatim>\<open>animate\<close> once per display refresh. A finite run of it is
  a list of frames, each with the parameters and the audio readings of that frame.
\<close>

record frame =
  frame_PARAMS :: PARAMS
  isAudioEnabled :: bool
  getAudioLevel :: real

fun run_frames :: "(nat \<Rightarrow> real) \<Rightarrow> frame list \<Rightarrow> store option \<times> nat \<Rightarrow> store option \<times> nat" where
  "run_frames rnd [] st = st"
| "run_frames rnd (f # fs) st =
     run_frames rnd fs (animate (frame_PARAMS f) (isAudioEnabled f) (getAudioLevel f) rnd st)"


subsection \<open>The constant \<^verbatim>\<open>Math.PI\<close>\<close>

text \<open>
  \<^verbatim>\<open>Math.PI\<close> is the double nearest to \<open>\<pi>\<close>, the rational number
  \<open>884279719003555 / 2\<^sup>4\<^sup>8\<close>, which is a little below \<open>\<pi>\<close>.
\<close>

definition Math_PI :: real where
  "Math_PI = 884279719003555 / 281474976710656"

text \<open>
  \<^verbatim>\<open>chladni\<close> with the constant used for \<^verbatim>\<open>Math.PI\<close> and the function used for
  \<^verbatim>\<open>Math.sin\<close> as parameters; \<open>chladni\<close> above is the instance with \<open>\<pi>\<close> and the
  real sine.
\<close>

definition chladni_with :: "real \<Rightarrow> (real \<Rightarrow> real) \<Rightarrow> PARAMS \<Rightarrow> real \<Rightarrow> real \<Rightarrow> real \<Rightarrow> real \<Rightarrow> real" where
  "chladni_with PI sine P x y m n =
     (let x = (x + 1) / 2;
          y = (y + 1) / 2;
          pattern1 = sine (PI * n * x) * sine (PI * m * y);
          pattern2 = sine (PI * m * x) * sine (PI * n * y)
      in patternMixX P * pattern1 + patternMixY P * pattern2)"

subsection \<open>The single-precision store\<close>

text \<open>
  A write to a \<^verbatim>\<open>Float32Array\<close> rounds the double to the nearest single-precision
  number, ties to even: 24 significant bits, the exponent of the unit in the last place
  not below \<open>- 149\<close>. Magnitudes above the single-precision range, which the array
  stores as \<^verbatim>\<open>Infinity\<close>, are not part of the model.
\<close>

definition roundTiesToEven :: "real \<Rightarrow> int" where
  "roundTiesToEven y =
     (let f = \<lfloor>y\<rfloor>
      in if y - of_int f < 1 / 2 then f
         else if y - of_int f > 1 / 2 then f + 1
         else if even f then f else f + 1)"

definition fround :: "real \<Rightarrow> real" where
  "fround x =
     (if x = 0 then 0
      else
        (let e = max \<lfloor>log 2 \<bar>x\<bar>\<rfloor> (- 126);
             ulp = 2 powr of_int (e - 23)
         in sgn x * (of_int (roundTiesToEven (\<bar>x\<bar> / ulp)) * ulp)))"

text \<open>A particle as the store holds it.\<close>

definition f32_particle :: "real \<times> real \<times> real \<times> real \<Rightarrow> real \<times> real \<times> real \<times> real" where
  "f32_particle pt = (case pt of (x, y, vx, vy) \<Rightarrow> (fround x, fround y, fround vx, fround vy))"

text \<open>
  The loop of \<^verbatim>\<open>animate\<close> with the rounding of the writes of lines 286--289: what the
  arrays hold after a frame.
\<close>

definition update_at_f32 :: "PARAMS \<Rightarrow> bool \<Rightarrow> real \<Rightarrow> real \<Rightarrow> nat \<Rightarrow> store \<Rightarrow> store" where
  "update_at_f32 P isAudioActive audioLevel r i s =
     (let positions = particlePositions s;
          velocities = particleVelocities s;
          x = positions ! (i * 3);
          y = positions ! (i * 3 + 1);
          vx = velocities ! (i * 2);
          vy = velocities ! (i * 2 + 1);
          (x, y, vx, vy) = particle_update P isAudioActive audioLevel r (x, y, vx, vy)
      in s\<lparr>particlePositions := positions[i * 3 := fround x, i * 3 + 1 := fround y],
            particleVelocities := velocities[i * 2 := fround vx, i * 2 + 1 := fround vy]\<rparr>)"

function animate_loop_f32 ::
  "PARAMS \<Rightarrow> bool \<Rightarrow> real \<Rightarrow> (nat \<Rightarrow> real) \<Rightarrow> nat \<Rightarrow> store \<times> nat \<Rightarrow> store \<times> nat"
where
  "animate_loop_f32 P isAudioActive audioLevel rnd i (s, k) =
     (if i < particles P then
        animate_loop_f32 P isAudioActive audioLevel rnd (Suc i)
          (update_at_f32 P isAudioActive audioLevel (rnd k) i s, if isAudioActive then Suc k else k)
      else (s, k))"
  by pat_completeness auto
termination
  by (relation "measure (\<lambda>(P, a, l, rnd, i, st). particles P - i)") auto

definition animate_f32 ::
  "PARAMS \<Rightarrow> bool \<Rightarrow> real \<Rightarrow> (nat \<Rightarrow> real) \<Rightarrow> store option \<times> nat \<Rightarrow> store option \<times> nat"
where
  "animate_f32 P audioEnabled audioLevel rnd st =
     (case fst st of
        None \<Rightarrow> st
      | Some s \<Rightarrow>
          (let isAudioActive = (audioEnabled \<and> audioLevel > 0.01);
               (s', k) = animate_loop_f32 P isAudioActive audioLevel rnd 0 (s, snd st)
           in (Some s', k)))"

fun run_frames_f32 :: "(nat \<Rightarrow> real) \<Rightarrow> frame list \<Rightarrow> store option \<times> nat \<Rightarrow> store option \<times> nat" where
  "run_frames_f32 rnd [] st = st"
| "run_frames_f32 rnd (f # fs) st =
     run_frames_f32 rnd fs (animate_f32 (frame_PARAMS f) (isAudioEnabled f) (getAudioLevel f) rnd st)"

subsection \<open>Auxiliary notions for the statements\<close>

text \<open>The half-width of line 274.\<close>

definition bound :: real where
  "bound = PLANE_SIZE / 2 - 0.01"

text \<open>The components of a particle.\<close>

definition pos_x :: "real \<times> real \<times> real \<times> real \<Rightarrow> real" where
  "pos_x pt = fst pt"

definition pos_y :: "real \<times> real \<times> real \<times> real \<Rightarrow> real" where
  "pos_y pt = fst (snd pt)"

definition vel_x :: "real \<times> real \<times> real \<times> real \<Rightarrow> real" where
  "vel_x pt = fst (snd (snd pt))"

definition vel_y :: "real \<times> real \<times> real \<times> real \<Rightarrow> real" where
  "vel_y pt = snd (snd (snd pt))"

text \<open>The magnitude of a velocity, as line 257 computes it.\<close>

definition speed :: "real \<Rightarrow> real \<Rightarrow> real" where
  "speed vx vy = sqrt (vx * vx + vy * vy)"

text \<open>
  The velocity of a particle after lines 236--267 of one step (excitation and damping),
  before it is added to the position: the first stage of \<open>particle_update\<close>, named so
  that statements can refer to it.
\<close>

definition damped_velocity ::
  "PARAMS \<Rightarrow> bool \<Rightarrow> real \<Rightarrow> real \<Rightarrow> real \<times> real \<times> real \<times> real \<Rightarrow> real \<times> real"
where
  "damped_velocity P isAudioActive audioLevel r pt =
     (case pt of (x, y, vx, vy) \<Rightarrow>
        if isAudioActive then
          (let force = chladni P (x / (PLANE_SIZE / 2)) (y / (PLANE_SIZE / 2)) (mode_m P) (mode_n P)
                         * vibrationStrength P * (1 + audioLevel * 2)
           in ((vx + force * cos (r * pi * 2) * 0.07) * 0.85,
               (vy + force * sin (r * pi * 2) * 0.07) * 0.85))
        else if speed (vx * 0.85) (vy * 0.85) > 0.001 then
          (let dampingFactor = max 0.5 (1 - speed (vx * 0.85) (vy * 0.85) * 2)
           in (vx * 0.85 * dampingFactor, vy * 0.85 * dampingFactor))
        else (0, 0))"

text \<open>The reflection of lines 276--279 (and 280--283) on one coordinate.\<close>

definition reflect :: "real \<Rightarrow> real \<Rightarrow> real \<times> real" where
  "reflect x vx = (if \<bar>x\<bar> > bound then (sgn x * bound, vx * - 0.7) else (x, vx))"

subsection \<open>Numbers that are not finite\<close>

text \<open>
  The real numbers above have no NaN and no infinity. For the statements about such
  values a JavaScript number is a real number or one of the three special values, with
  the arithmetic, the comparison and the \<^verbatim>\<open>Math\<close> functions of the language on them.
  Arithmetic on finite numbers stays exact, and the two zeros are one. \<open>a div b\<close> is
  JavaScript's \<^verbatim>\<open>a / b\<close>; \<open>a < b\<close> is false whenever one side is NaN.
\<close>

datatype jsnum = Num real | NaN | Infinity | NegInfinity

instantiation jsnum :: "{plus, uminus, minus, times, divide, abs, sgn, ord}"
begin

fun plus_jsnum :: "jsnum \<Rightarrow> jsnum \<Rightarrow> jsnum" where
  "Num a + Num b = Num (a + b)"
| "NaN + _ = NaN"
| "_ + NaN = NaN"
| "Infinity + NegInfinity = NaN"
| "NegInfinity + Infinity = NaN"
| "Infinity + _ = Infinity"
| "_ + Infinity = Infinity"
| "NegInfinity + _ = NegInfinity"
| "_ + NegInfinity = NegInfinity"

fun uminus_jsnum :: "jsnum \<Rightarrow> jsnum" where
  "- Num a = Num (- a)"
| "- NaN = NaN"
| "- Infinity = NegInfinity"
| "- NegInfinity = Infinity"

definition minus_jsnum :: "jsnum \<Rightarrow> jsnum \<Rightarrow> jsnum" where
  "a - b = a + (- b)" for a b :: jsnum

fun times_jsnum :: "jsnum \<Rightarrow> jsnum \<Rightarrow> jsnum" where
  "Num a * Num b = Num (a * b)"
| "NaN * _ = NaN"
| "_ * NaN = NaN"
| "Infinity * Num b = (if b = 0 then NaN else if b > 0 then Infinity else NegInfinity)"
| "NegInfinity * Num b = (if b = 0 then NaN else if b > 0 then NegInfinity else Infinity)"
| "Num a * Infinity = (if a = 0 then NaN else if a > 0 then Infinity else NegInfinity)"
| "Num a * NegInfinity = (if a = 0 then NaN else if a > 0 then NegInfinity else Infinity)"
| "Infinity * Infinity = Infinity"
| "Infinity * NegInfinity = NegInfinity"
| "NegInfinity * Infinity = NegInfinity"
| "NegInfinity * NegInfinity = Infinity"

fun divide_jsnum :: "jsnum \<Rightarrow> jsnum \<Rightarrow> jsnum" where
  "Num a div Num b =
     (if b = 0 then (if a = 0 then NaN else if a > 0 then Infinity else NegInfinity)
      else Num (a / b))"
| "NaN div _ = NaN"
| "_ div NaN = NaN"
| "Num a div _ = Num 0"
| "Infinity div Num b = (if b \<ge> 0 then Infinity else NegInfinity)"
| "NegInfinity div Num b = (if b \<ge> 0 then NegInfinity else Infinity)"
| "_ div _ = NaN"

fun abs_jsnum :: "jsnum \<Rightarrow> jsnum" where
  "\<bar>Num a\<bar> = Num \<bar>a\<bar>"
| "\<bar>NaN\<bar> = NaN"
| "\<bar>Infinity\<bar> = Infinity"
| "\<bar>NegInfinity\<bar> = Infinity"

fun sgn_jsnum :: "jsnum \<Rightarrow> jsnum" where
  "sgn (Num a) = Num (sgn a)"
| "sgn NaN = NaN"
| "sgn Infinity = Num 1"
| "sgn NegInfinity = Num (- 1)"

fun less_jsnum :: "jsnum \<Rightarrow> jsnum \<Rightarrow> bool" where
  "Num a < Num b \<longleftrightarrow> a < b"
| "NaN < _ \<longleftrightarrow> False"
| "_ < NaN \<longleftrightarrow> False"
| "_ < NegInfinity \<longleftrightarrow> False"
| "Infinity < _ \<longleftrightarrow> False"
| "NegInfinity < _ \<longleftrightarrow> True"
| "_ < Infinity \<longleftrightarrow> True"

definition less_eq_jsnum :: "jsnum \<Rightarrow> jsnum \<Rightarrow> bool" where
  "a \<le> b \<longleftrightarrow> a < b \<or> (a = b \<and> a \<noteq> NaN)" for a b :: jsnum

instance ..

end

text \<open>\<^verbatim>\<open>Math.sin\<close>, \<^verbatim>\<open>Math.cos\<close>, \<^verbatim>\<open>Math.sqrt\<close> and \<^verbatim>\<open>Math.max\<close>.\<close>

fun Math_sin :: "jsnum \<Rightarrow> jsnum" where
  "Math_sin (Num a) = Num (sin a)"
| "Math_sin _ = NaN"

fun Math_cos :: "jsnum \<Rightarrow> jsnum" where
  "Math_cos (Num a) = Num (cos a)"
| "Math_cos _ = NaN"

fun Math_sqrt :: "jsnum \<Rightarrow> jsnum" where
  "Math_sqrt (Num a) = (if a < 0 then NaN else Num (sqrt a))"
| "Math_sqrt Infinity = Infinity"
| "Math_sqrt _ = NaN"

fun Math_max :: "jsnum \<Rightarrow> jsnum \<Rightarrow> jsnum" where
  "Math_max NaN _ = NaN"
| "Math_max _ NaN = NaN"
| "Math_max a b = (if a < b then b else a)"

text \<open>\<^verbatim>\<open>Math.max(...xs)\<close>: \<^verbatim>\<open>-Infinity\<close> for no argument.\<close>

definition Math_max_of :: "jsnum list \<Rightarrow> jsnum" where
  "Math_max_of xs = fold (\<lambda>x acc. Math_max acc x) xs NegInfinity"

text \<open>\<^verbatim>\<open>Number.isFinite\<close>.\<close>

fun isFinite :: "jsnum \<Rightarrow> bool" where
  "isFinite (Num a) = True"
| "isFinite _ = False"

text \<open>
  \<^verbatim>\<open>getAudioLevel\<close> of \<^verbatim>\<open>audio.js\<close>: the analyser, when there is one, gives the
  waveform samples.
\<close>

definition getAudioLevel_js :: "jsnum list option \<Rightarrow> bool \<Rightarrow> jsnum" where
  "getAudioLevel_js analyzer audioEnabled =
     (case analyzer of
        Some waveform \<Rightarrow> if audioEnabled then Math_max_of (map abs waveform) else Num 0
      | None \<Rightarrow> Num 0)"

text \<open>
  \<^verbatim>\<open>chladni\<close> and the body of the loop of \<^verbatim>\<open>animate\<close> once more, now on JavaScript
  numbers: the particle and the audio level may hold special values; the parameters and
  the draw are finite.
\<close>

definition chladni_js :: "PARAMS \<Rightarrow> jsnum \<Rightarrow> jsnum \<Rightarrow> jsnum \<Rightarrow> jsnum \<Rightarrow> jsnum" where
  "chladni_js P x y m n =
     (let x = (x + Num 1) div Num 2;
          y = (y + Num 1) div Num 2;
          pattern1 = Math_sin (Num pi * n * x) * Math_sin (Num pi * m * y);
          pattern2 = Math_sin (Num pi * m * x) * Math_sin (Num pi * n * y)
      in Num (patternMixX P) * pattern1 + Num (patternMixY P) * pattern2)"

definition particle_update_js ::
  "PARAMS \<Rightarrow> bool \<Rightarrow> jsnum \<Rightarrow> real \<Rightarrow> jsnum \<times> jsnum \<times> jsnum \<times> jsnum \<Rightarrow> jsnum \<times> jsnum \<times> jsnum \<times> jsnum"
where
  "particle_update_js P isAudioActive audioLevel r pt =
     (case pt of (x, y, vx, vy) \<Rightarrow>
      let x_norm = x div (Num PLANE_SIZE div Num 2);
          y_norm = y div (Num PLANE_SIZE div Num 2);
          (vx, vy) =
            (if isAudioActive then
               (let value = chladni_js P x_norm y_norm (Num (mode_m P)) (Num (mode_n P));
                    force = value * Num (vibrationStrength P) * (Num 1 + audioLevel * Num 2);
                    randomAngle = Num r * Num pi * Num 2;
                    randomness = Num 0.07;
                    vx = vx + force * Math_cos randomAngle * randomness;
                    vy = vy + force * Math_sin randomAngle * randomness
                in (vx * Num 0.85, vy * Num 0.85))
             else
               (let vx = vx * Num 0.85;
                    vy = vy * Num 0.85;
                    speed = Math_sqrt (vx * vx + vy * vy)
                in if speed > Num 0.001 then
                     (let dampingFactor = Math_max (Num 0.5) (Num 1 - speed * Num 2)
                      in (vx * dampingFactor, vy * dampingFactor))
                   else (Num 0, Num 0)));
          x = x + vx;
          y = y + vy;
          bound = Num PLANE_SIZE div Num 2 - Num 0.01;
          bounceDamping = Num 0.7;
          (x, vx) = (if \<bar>x\<bar> > bound then (sgn x * bound, vx * - bounceDamping) else (x, vx));
          (y, vy) = (if \<bar>y\<bar> > bound then (sgn y * bound, vy * - bounceDamping) else (y, vy))
      in (x, y, vx, vy))"

text \<open>Lines 222--223 and the loop body together, for one particle.\<close>

definition frame_update_js ::
  "PARAMS \<Rightarrow> bool \<Rightarrow> jsnum \<Rightarrow> real \<Rightarrow> jsnum \<times> jsnum \<times> jsnum \<times> jsnum \<Rightarrow> jsnum \<times> jsnum \<times> jsnum \<times> jsnum"
where
  "frame_update_js P audioEnabled audioLevel r pt =
     (let isAudioActive = (audioEnabled \<and> audioLevel > Num 0.01)
      in particle_update_js P isAudioActive audioLevel r pt)"

text \<open>A particle of the real model as a particle of finite JavaScript numbers.\<close>

definition finite_particle :: "real \<times> real \<times> real \<times> real \<Rightarrow> jsnum \<times> jsnum \<times> jsnum \<times> jsnum" where
  "finite_particle pt = (case pt of (x, y, vx, vy) \<Rightarrow> (Num x, Num y, Num vx, Num vy))"

text \<open>The two stages of \<open>particle_update_js\<close>, as for the real model.\<close>

definition damped_velocity_js ::
  "PARAMS \<Rightarrow> bool \<Rightarrow> jsnum \<Rightarrow> real \<Rightarrow> jsnum \<times> jsnum \<times> jsnum \<times> jsnum \<Rightarrow> jsnum \<times> jsnum"
where
  "damped_velocity_js P isAudioActive audioLevel r pt =
     (case pt of (x, y, vx, vy) \<Rightarrow>
        if isAudioActive then
          (let force = chladni_js P (x div (Num PLANE_SIZE div Num 2)) (y div (Num PLANE_SIZE div Num 2))
                         (Num (mode_m P)) (Num (mode_n P))
                       * Num (vibrationStrength P) * (Num 1 + audioLevel * Num 2)
           in ((vx + force * Math_cos (Num r * Num pi * Num 2) * Num 0.07) * Num 0.85,
               (vy + force * Math_sin (Num r * Num pi * Num 2) * Num 0.07) * Num 0.85))
        else if Math_sqrt (vx * Num 0.85 * (vx * Num 0.85) + vy * Num 0.85 * (vy * Num 0.85)) > Num 0.001 then
          (let dampingFactor =
                 Math_max (Num 0.5)
                   (Num 1 - Math_sqrt (vx * Num 0.85 * (vx * Num 0.85) + vy * Num 0.85 * (vy * Num 0.85)) * Num 2)
           in (vx * Num 0.85 * dampingFactor, vy * Num 0.85 * dampingFactor))
        else (Num 0, Num 0))"

definition reflect_js :: "jsnum \<Rightarrow> jsnum \<Rightarrow> jsnum \<times> jsnum" where
  "reflect_js x vx =
     (if \<bar>x\<bar> > Num PLANE_SIZE div Num 2 - Num 0.01
      then (sgn x * (Num PLANE_SIZE div Num 2 - Num 0.01), vx * - Num 0.7)
      else (x, vx))"

subsection \<open>Example data\<close>

text \<open>
  The initial value of \<^verbatim>\<open>PARAMS\<close> in \<^verbatim>\<open>controls.js\<close>, and a small store with two
  particles, used to instantiate the statements below.
\<close>

definition initial_PARAMS :: PARAMS where
  "initial_PARAMS =
     \<lparr>mode_m = 3, mode_n = 2, patternMixX = 1, patternMixY = 1,
      vibrationStrength = 0.1, particles = 50000\<rparr>"

definition two_particles :: store where
  "two_particles =
     \<lparr>particlePositions = [1 / 2, - 1 / 2, 0, 119 / 100, 0, 0],
      particleVelocities = [6 / 7225, 8 / 7225, 3 / 10, 4 / 10]\<rparr>"

text \<open>A store of one particle whose entries are single-precision numbers.\<close>

definition one_particle :: store where
  "one_particle = \<lparr>particlePositions = [1, 0, 0], particleVelocities = [1 / 2, 0]\<rparr>"

definition three_particles :: store where
  "three_particles =
     \<lparr>particlePositions = [1 / 2, - 1 / 2, 0, - 1, 1, 0, 3 / 10, 3 / 10, 0],
      particleVelocities = [6 / 7225, 8 / 7225, - 2, 5, 0, 0]\<rparr>"

text \<open>The sequence of draws that is constantly \<open>r\<close>.\<close>

definition constant_draws :: "real \<Rightarrow> nat \<Rightarrow> real" where
  "constant_draws r k = r"

definition silent_frame :: frame where
  "silent_frame =
     \<lparr>frame_PARAMS = initial_PARAMS\<lparr>particles := 2\<rparr>, isAudioEnabled = False, getAudioLevel = 0\<rparr>"

definition loud_frame :: frame where
  "loud_frame =
     \<lparr>frame_PARAMS = initial_PARAMS\<lparr>particles := 2\<rparr>, isAudioEnabled = True, getAudioLevel = 1 / 2\<rparr>"

section \<open>Properties of the field and the frequency\<close>

lemma abs_sin_mult_le_one: "\<bar>sin (u::real) * sin v\<bar> \<le> 1"
proof -
  have "\<bar>sin u\<bar> * \<bar>sin v\<bar> \<le> 1 * 1"
    by (intro mult_mono) simp_all
  then show ?thesis
    by (simp add: abs_mult)
qed

lemma sin_pi_int_mult: "k \<in> \<int> \<Longrightarrow> sin (pi * k) = 0"
  by (metis Ints_cases mult.commute sin_zero_iff_int2)

text \<open>
  C1. For every \<open>x\<close>, \<open>y\<close>, \<open>m\<close>, \<open>n\<close> and coefficients \<open>a\<close>, \<open>b\<close> (read by the code from
  \<^verbatim>\<open>PARAMS.patternMixX\<close> and \<^verbatim>\<open>PARAMS.patternMixY\<close>) the field function returns
  \<open>a \<sqdot> sin (\<pi> n x') \<sqdot> sin (\<pi> m y') + b \<sqdot> sin (\<pi> m x') \<sqdot> sin (\<pi> n y')\<close> with
  \<open>x' = (x + 1) / 2\<close> and \<open>y' = (y + 1) / 2\<close>. The function is a total function of its
  arguments and of the two coefficients alone: none of the other fields of the parameter
  object influences the value.
\<close>

theorem chladni_is_field:
  "chladni P x y m n = field_spec x y m n (patternMixX P) (patternMixY P)
   \<and> chladni (P\<lparr>mode_m := m', mode_n := n', vibrationStrength := v', particles := c'\<rparr>) x y m n
       = chladni P x y m n"
  by (simp add: chladni_def field_spec_def Let_def mult.assoc)

text \<open>
  C8. For all mode numbers and coefficients, and all positions, the value of the field
  lies in the closed interval from \<open>- (|a| + |b|)\<close> to \<open>|a| + |b|\<close>, where \<open>a\<close> and
  \<open>b\<close> are the two pattern coefficients. The bound needs none of the ranges of the user
  interface (mode numbers in 1..15, coefficients in -2..2, positions in -1..1): it holds
  for all real arguments.
\<close>

theorem chladni_bounds:
  "- (\<bar>patternMixX P\<bar> + \<bar>patternMixY P\<bar>) \<le> chladni P x y m n
   \<and> chladni P x y m n \<le> \<bar>patternMixX P\<bar> + \<bar>patternMixY P\<bar>"
proof -
  let ?p1 = "sin (pi * n * ((x + 1) / 2)) * sin (pi * m * ((y + 1) / 2))"
  let ?p2 = "sin (pi * m * ((x + 1) / 2)) * sin (pi * n * ((y + 1) / 2))"
  have "\<bar>patternMixX P * ?p1\<bar> \<le> \<bar>patternMixX P\<bar> * 1"
    unfolding abs_mult by (intro mult_left_mono abs_sin_mult_le_one [unfolded abs_mult]) simp
  moreover have "\<bar>patternMixY P * ?p2\<bar> \<le> \<bar>patternMixY P\<bar> * 1"
    unfolding abs_mult by (intro mult_left_mono abs_sin_mult_le_one [unfolded abs_mult]) simp
  ultimately have "\<bar>patternMixX P * ?p1 + patternMixY P * ?p2\<bar> \<le> \<bar>patternMixX P\<bar> + \<bar>patternMixY P\<bar>"
    by linarith
  then have "\<bar>chladni P x y m n\<bar> \<le> \<bar>patternMixX P\<bar> + \<bar>patternMixY P\<bar>"
    by (simp add: chladni_def Let_def)
  then show ?thesis
    by linarith
qed

text \<open>
  C7. The frequency function returns
  \<open>min (max (sqrt (m\<^sup>2 + n\<^sup>2) \<sqdot> 55 \<sqdot> sqrt (a\<^sup>2 + b\<^sup>2)) 20) 2000\<close>, which always lies
  between 20 and 2000 (for the ranges of the user interface and for all other arguments as
  well); \<open>frequency 1 1 0 0\<close> is 20, the floor, and \<open>frequency 15 15 2 2\<close> is 2000, the
  ceiling.
\<close>

theorem calculateFrequency_clamp:
  "calculateFrequency m n a b = min (max (sqrt (m\<^sup>2 + n\<^sup>2) * 55 * sqrt (a\<^sup>2 + b\<^sup>2)) 20) 2000
   \<and> 20 \<le> calculateFrequency m n a b \<and> calculateFrequency m n a b \<le> 2000
   \<and> calculateFrequency 1 1 0 0 = 20
   \<and> calculateFrequency 15 15 2 2 = 2000"
proof -
  have "sqrt 450 * sqrt 8 = sqrt (60 * 60)"
    by (simp add: real_sqrt_mult [symmetric])
  then have "sqrt 450 * sqrt 8 = 60"
    by simp
  then have top: "sqrt 450 * 55 * sqrt 8 = 3300"
    by (simp add: mult.commute)
  have "calculateFrequency 15 15 2 2 = 2000"
    using top by (simp add: calculateFrequency_def Let_def)
  moreover have "calculateFrequency 1 1 0 0 = 20"
    by (simp add: calculateFrequency_def Let_def)
  moreover have "calculateFrequency m n a b = min (max (sqrt (m\<^sup>2 + n\<^sup>2) * 55 * sqrt (a\<^sup>2 + b\<^sup>2)) 20) 2000"
    by (simp add: calculateFrequency_def Let_def power2_eq_square)
  moreover have "20 \<le> calculateFrequency m n a b" "calculateFrequency m n a b \<le> 2000"
    by (simp_all add: calculateFrequency_def Let_def)
  ultimately show ?thesis
    by blast
qed

section \<open>The integrator loop, particle by particle\<close>

text \<open>
  One iteration changes particle \<open>i\<close> and nothing else; an index beyond the store
  changes nothing. The loop therefore updates each particle below the count once, with
  the draw whose number is the counter at loop entry plus the index of the particle.
\<close>

lemma update_at_lengths:
  "length (particlePositions (update_at P a l r i s)) = length (particlePositions s)"
  "length (particleVelocities (update_at P a l r i s)) = length (particleVelocities s)"
  by (simp_all add: update_at_def Let_def split: prod.splits)

lemma update_at_count: "currentCount (update_at P a l r i s) = currentCount s"
  by (simp add: currentCount_def update_at_lengths)

lemma update_at_wf: "store_wf s \<Longrightarrow> store_wf (update_at P a l r i s)"
  by (simp add: store_wf_def update_at_lengths update_at_count)

lemma update_at_particle:
  assumes "store_wf s" "i < currentCount s"
  shows "particle (update_at P a l r i s) j =
           (if j = i then particle_update P a l r (particle s i) else particle s j)"
proof (cases "j = i")
  case True
  have "i * 3 + 1 < length (particlePositions s)" "i * 2 + 1 < length (particleVelocities s)"
    using assms by (simp_all add: store_wf_def)
  then show ?thesis
    using True by (simp add: particle_def update_at_def Let_def split: prod.splits)
next
  case False
  then have "j * 3 \<noteq> i * 3" "j * 3 \<noteq> i * 3 + 1" "j * 3 + 1 \<noteq> i * 3" "j * 3 + 1 \<noteq> i * 3 + 1"
    "j * 2 \<noteq> i * 2" "j * 2 \<noteq> i * 2 + 1" "j * 2 + 1 \<noteq> i * 2" "j * 2 + 1 \<noteq> i * 2 + 1"
    by presburger+
  then show ?thesis
    using False by (simp add: particle_def update_at_def Let_def split: prod.splits)
qed

lemma update_at_beyond:
  assumes "store_wf s" "currentCount s \<le> i"
  shows "update_at P a l r i s = s"
proof -
  have "length (particlePositions s) \<le> i * 3" "length (particlePositions s) \<le> i * 3 + 1"
    "length (particleVelocities s) \<le> i * 2" "length (particleVelocities s) \<le> i * 2 + 1"
    using assms by (simp_all add: store_wf_def)
  then show ?thesis
    by (simp add: update_at_def Let_def list_update_beyond split: prod.splits)
qed

declare animate_loop.simps [simp del]

lemma animate_loop_step:
  "i < particles P \<Longrightarrow>
   animate_loop P a l rnd i (s, k) =
   animate_loop P a l rnd (Suc i) (update_at P a l (rnd k) i s, if a then Suc k else k)"
  by (subst animate_loop.simps) simp

lemma animate_loop_done: "\<not> i < particles P \<Longrightarrow> animate_loop P a l rnd i (s, k) = (s, k)"
  by (subst animate_loop.simps) simp

lemma animate_loop_shape:
  "store_wf s \<Longrightarrow>
   store_wf (fst (animate_loop P a l rnd i (s, k))) \<and>
   currentCount (fst (animate_loop P a l rnd i (s, k))) = currentCount s \<and>
   snd (animate_loop P a l rnd i (s, k)) = (if a then k + (particles P - i) else k)"
proof (induction P a l rnd i "(s, k)" arbitrary: s k rule: animate_loop.induct)
  case (1 P a l rnd i s k)
  show ?case
  proof (cases "i < particles P")
    case True
    have "store_wf (update_at P a l (rnd k) i s)" using 1(2) by (rule update_at_wf)
    from 1(1) [OF True this] True show ?thesis
      by (auto simp: animate_loop_step update_at_count)
  next
    case False
    with 1 show ?thesis by (simp add: animate_loop_done)
  qed
qed

lemma animate_loop_particle:
  "store_wf s \<Longrightarrow>
   particle (fst (animate_loop P a l rnd i (s, k))) j =
     (if i \<le> j \<and> j < particles P \<and> j < currentCount s
      then particle_update P a l (rnd (if a then k + (j - i) else k)) (particle s j)
      else particle s j)"
proof (induction P a l rnd i "(s, k)" arbitrary: s k rule: animate_loop.induct)
  case (1 P a l rnd i s k)
  show ?case
  proof (cases "i < particles P")
    case False
    then show ?thesis by (auto simp: animate_loop_done)
  next
    case True
    let ?s = "update_at P a l (rnd k) i s"
    let ?k = "if a then Suc k else k"
    have wf: "store_wf ?s" using 1(2) by (rule update_at_wf)
    have step: "particle (fst (animate_loop P a l rnd i (s, k))) j =
        (if Suc i \<le> j \<and> j < particles P \<and> j < currentCount s
         then particle_update P a l (rnd (if a then ?k + (j - Suc i) else ?k)) (particle ?s j)
         else particle ?s j)"
      using 1(1) [OF True wf, of ] by (simp add: animate_loop_step [OF True] update_at_count)
    show ?thesis
    proof (cases "i < currentCount s")
      case inr: True
      have idx: "i < j \<Longrightarrow> Suc k + (j - Suc i) = k + (j - i)"
        by arith
      consider "j < i" | "j = i" | "i < j" by arith
      then show ?thesis
      proof cases
        case 1
        then show ?thesis
          unfolding step update_at_particle [OF \<open>store_wf s\<close> inr] by simp
      next
        case 2
        then show ?thesis
          unfolding step update_at_particle [OF \<open>store_wf s\<close> inr] using True inr by simp
      next
        case 3
        then show ?thesis
          unfolding step update_at_particle [OF \<open>store_wf s\<close> inr] using idx by simp
      qed
    next
      case out: False
      then have "?s = s" using 1(2) by (simp add: update_at_beyond)
      then show ?thesis
        unfolding step using out by auto
    qed
  qed
qed

section \<open>One particle update: stages, bounds and damping\<close>

text \<open>
  The update of one particle is the damped velocity followed by the reflection of each
  coordinate. The reflection bounds the position; the inactive damping shrinks the speed
  by the factor 0.85 at least and sets it to zero below the threshold.
\<close>

lemma particle_update_stages:
  "particle_update P act lvl r (x, y, vx, vy) =
     (let (wx, wy) = damped_velocity P act lvl r (x, y, vx, vy);
          (x', vx') = reflect (x + wx) wx;
          (y', vy') = reflect (y + wy) wy
      in (x', y', vx', vy'))"
  by (simp add: particle_update_def damped_velocity_def reflect_def bound_def speed_def Let_def
      split: prod.splits)

lemma particle_update_components:
  assumes "damped_velocity P act lvl r (x, y, vx, vy) = (wx, wy)"
  shows "pos_x (particle_update P act lvl r (x, y, vx, vy)) = fst (reflect (x + wx) wx)"
    and "vel_x (particle_update P act lvl r (x, y, vx, vy)) = snd (reflect (x + wx) wx)"
    and "pos_y (particle_update P act lvl r (x, y, vx, vy)) = fst (reflect (y + wy) wy)"
    and "vel_y (particle_update P act lvl r (x, y, vx, vy)) = snd (reflect (y + wy) wy)"
  unfolding particle_update_stages assms
  by (simp_all add: pos_x_def pos_y_def vel_x_def vel_y_def split: prod.splits)

lemma reflect_bound: "\<bar>fst (reflect x vx)\<bar> \<le> bound"
  by (simp add: reflect_def bound_def PLANE_SIZE_def abs_mult)

lemma reflect_abs_velocity: "\<bar>snd (reflect x vx)\<bar> \<le> \<bar>vx\<bar>"
  by (simp add: reflect_def abs_mult)

lemma reflect_zero_velocity: "snd (reflect x 0) = 0"
  by (simp add: reflect_def)

lemma particle_update_in_bound:
  "\<bar>pos_x (particle_update P act lvl r pt)\<bar> \<le> bound \<and> \<bar>pos_y (particle_update P act lvl r pt)\<bar> \<le> bound"
proof -
  obtain x y vx vy where pt: "pt = (x, y, vx, vy)" by (cases pt) auto
  obtain wx wy where w: "damped_velocity P act lvl r (x, y, vx, vy) = (wx, wy)" by fastforce
  show ?thesis
    unfolding pt particle_update_components [OF w] by (simp add: reflect_bound)
qed

lemma speed_scale: "speed (c * vx) (c * vy) = \<bar>c\<bar> * speed vx vy"
proof -
  have "c * vx * (c * vx) + c * vy * (c * vy) = c\<^sup>2 * (vx * vx + vy * vy)"
    by (simp add: power2_eq_square algebra_simps)
  then show ?thesis
    by (simp add: speed_def real_sqrt_mult)
qed

lemma speed_nonneg: "0 \<le> speed vx vy"
  by (simp add: speed_def)

lemma speed_mono: "\<bar>a\<bar> \<le> \<bar>a'\<bar> \<Longrightarrow> \<bar>b\<bar> \<le> \<bar>b'\<bar> \<Longrightarrow> speed a b \<le> speed a' b'"
proof -
  assume "\<bar>a\<bar> \<le> \<bar>a'\<bar>" "\<bar>b\<bar> \<le> \<bar>b'\<bar>"
  then have "a\<^sup>2 \<le> a'\<^sup>2" "b\<^sup>2 \<le> b'\<^sup>2"
    by (simp_all add: abs_le_square_iff)
  then show ?thesis
    by (simp add: speed_def power2_eq_square [symmetric] add_mono)
qed

lemma idle_damped_speed:
  assumes "damped_velocity P False lvl r (x, y, vx, vy) = (wx, wy)"
  shows "speed wx wy \<le> 0.85 * speed vx vy"
proof -
  let ?s = "speed (vx * 0.85) (vy * 0.85)"
  have s: "?s = 0.85 * speed vx vy"
    using speed_scale [of "0.85" vx vy] by (simp add: mult.commute)
  show ?thesis
  proof (cases "?s > 0.001")
    case True
    let ?f = "max 0.5 (1 - ?s * 2)"
    have f: "0 \<le> ?f" "?f \<le> 1" using True by simp_all
    have "wx = ?f * (vx * 0.85)" "wy = ?f * (vy * 0.85)"
      using assms True by (simp_all add: damped_velocity_def Let_def mult.commute)
    then have "speed wx wy = \<bar>?f\<bar> * ?s"
      by (simp only: speed_scale)
    also have "\<dots> \<le> 1 * ?s"
      using f speed_nonneg [of "vx * 0.85" "vy * 0.85"] by (intro mult_right_mono) simp_all
    finally show ?thesis using s by simp
  next
    case False
    then have "wx = 0" "wy = 0"
      using assms by (simp_all add: damped_velocity_def)
    then show ?thesis
      using speed_nonneg [of vx vy] by (simp add: speed_def)
  qed
qed

lemma idle_damped_snap:
  assumes "0.85 * speed vx vy \<le> 0.001"
  shows "damped_velocity P False lvl r (x, y, vx, vy) = (0, 0)"
proof -
  have "speed (vx * 0.85) (vy * 0.85) = 0.85 * speed vx vy"
    using speed_scale [of "0.85" vx vy] by (simp add: mult.commute)
  then show ?thesis
    using assms by (simp add: damped_velocity_def)
qed

lemma idle_update_speed:
  "speed (vel_x (particle_update P False lvl r pt)) (vel_y (particle_update P False lvl r pt))
     \<le> 0.85 * speed (vel_x pt) (vel_y pt)"
proof -
  obtain x y vx vy where pt: "pt = (x, y, vx, vy)" by (cases pt) auto
  obtain wx wy where w: "damped_velocity P False lvl r (x, y, vx, vy) = (wx, wy)" by fastforce
  have "speed (snd (reflect (x + wx) wx)) (snd (reflect (y + wy) wy)) \<le> speed wx wy"
    by (intro speed_mono reflect_abs_velocity)
  also have "\<dots> \<le> 0.85 * speed vx vy"
    using w by (rule idle_damped_speed)
  finally show ?thesis
    unfolding pt particle_update_components [OF w] by (simp add: vel_x_def vel_y_def)
qed

lemma idle_update_snap:
  assumes "0.85 * speed (vel_x pt) (vel_y pt) \<le> 0.001"
  shows "vel_x (particle_update P False lvl r pt) = 0 \<and> vel_y (particle_update P False lvl r pt) = 0"
proof -
  obtain x y vx vy where pt: "pt = (x, y, vx, vy)" by (cases pt) auto
  have w: "damped_velocity P False lvl r (x, y, vx, vy) = (0, 0)"
    using assms unfolding pt by (intro idle_damped_snap) (simp add: vel_x_def vel_y_def)
  show ?thesis
    unfolding pt particle_update_components [OF w] by (simp add: reflect_zero_velocity)
qed

section \<open>Frames and runs of frames\<close>

text \<open>
  A frame on a well-formed store gives a well-formed store of the same count, in which
  every particle is the update of the particle it was.
\<close>

lemma animate_None: "animate P en lvl rnd (None, k) = (None, k)"
  by (simp add: animate_def)

lemma animate_Some:
  "animate P en lvl rnd (Some s, k) =
     (Some (fst (animate_loop P (en \<and> lvl > 0.01) lvl rnd 0 (s, k))),
      snd (animate_loop P (en \<and> lvl > 0.01) lvl rnd 0 (s, k)))"
  by (simp add: animate_def Let_def split: prod.splits)

lemma animate_store:
  assumes "store_wf s"
  obtains s' k' where "animate P en lvl rnd (Some s, k) = (Some s', k')"
    and "store_wf s'" and "currentCount s' = currentCount s"
    and "\<And>j. particle s' j =
           (if j < particles P \<and> j < currentCount s
            then particle_update P (en \<and> lvl > 0.01) lvl
                   (rnd (if en \<and> lvl > 0.01 then k + j else k)) (particle s j)
            else particle s j)"
proof -
  let ?r = "animate_loop P (en \<and> lvl > 0.01) lvl rnd 0 (s, k)"
  have "animate P en lvl rnd (Some s, k) = (Some (fst ?r), snd ?r)"
    by (rule animate_Some)
  moreover have "store_wf (fst ?r)" "currentCount (fst ?r) = currentCount s"
    using animate_loop_shape [OF assms] by simp_all
  moreover have "particle (fst ?r) j =
           (if j < particles P \<and> j < currentCount s
            then particle_update P (en \<and> lvl > 0.01) lvl
                   (rnd (if en \<and> lvl > 0.01 then k + j else k)) (particle s j)
            else particle s j)" for j
    using animate_loop_particle [OF assms, of P _ lvl rnd 0 k j] by simp
  ultimately show ?thesis
    using that by blast
qed

lemma run_frames_append:
  "run_frames rnd (fs @ gs) st = run_frames rnd gs (run_frames rnd fs st)"
  by (induction fs arbitrary: st) simp_all

lemma run_frames_idle:
  assumes "store_wf s" and "i < currentCount s"
    and "\<forall>f \<in> set fs. \<not> (isAudioEnabled f \<and> getAudioLevel f > 0.01) \<and>
           particles (frame_PARAMS f) = currentCount s"
  shows "\<exists>s' k'. run_frames rnd fs (Some s, k) = (Some s', k') \<and> store_wf s' \<and>
           currentCount s' = currentCount s \<and>
           speed (vel_x (particle s' i)) (vel_y (particle s' i))
             \<le> 0.85 ^ length fs * speed (vel_x (particle s i)) (vel_y (particle s i)) \<and>
           (fs \<noteq> [] \<and> 0.85 ^ length fs * speed (vel_x (particle s i)) (vel_y (particle s i)) \<le> 0.001
              \<longrightarrow> vel_x (particle s' i) = 0 \<and> vel_y (particle s' i) = 0)"
  using assms
proof (induction fs arbitrary: s k)
  case Nil
  then show ?case by simp
next
  case (Cons f fs)
  let ?P = "frame_PARAMS f"
  let ?v = "\<lambda>s. speed (vel_x (particle s i)) (vel_y (particle s i))"
  have idle: "\<not> (isAudioEnabled f \<and> getAudioLevel f > 0.01)" and pf: "particles ?P = currentCount s"
    using Cons.prems(3) by simp_all
  obtain s1 k1 where s1: "animate ?P (isAudioEnabled f) (getAudioLevel f) rnd (Some s, k) = (Some s1, k1)"
    "store_wf s1" "currentCount s1 = currentCount s"
    "\<And>j. particle s1 j =
           (if j < particles ?P \<and> j < currentCount s
            then particle_update ?P (isAudioEnabled f \<and> getAudioLevel f > 0.01) (getAudioLevel f)
                   (rnd (if isAudioEnabled f \<and> getAudioLevel f > 0.01 then k + j else k)) (particle s j)
            else particle s j)"
    using animate_store [OF Cons.prems(1)] by blast
  have off: "(isAudioEnabled f \<and> getAudioLevel f > 0.01) = False"
    using idle by blast
  have p1: "particle s1 i = particle_update ?P False (getAudioLevel f) (rnd k) (particle s i)"
    unfolding s1(4) off using pf Cons.prems(2) by simp
  have v1: "?v s1 \<le> 0.85 * ?v s"
    unfolding p1 by (rule idle_update_speed)
  have prems': "i < currentCount s1"
    "\<forall>f \<in> set fs. \<not> (isAudioEnabled f \<and> getAudioLevel f > 0.01) \<and>
           particles (frame_PARAMS f) = currentCount s1"
    using Cons.prems s1(3) by simp_all
  obtain s' k' where s': "run_frames rnd fs (Some s1, k1) = (Some s', k')" "store_wf s'"
    "currentCount s' = currentCount s1" "?v s' \<le> 0.85 ^ length fs * ?v s1"
    "fs \<noteq> [] \<and> 0.85 ^ length fs * ?v s1 \<le> 0.001 \<longrightarrow> vel_x (particle s' i) = 0 \<and> vel_y (particle s' i) = 0"
    using Cons.IH [OF s1(2) prems', of k1] by blast
  have pow: "0.85 ^ length fs * ?v s1 \<le> 0.85 ^ length (f # fs) * ?v s"
  proof -
    have "0.85 ^ length fs * ?v s1 \<le> 0.85 ^ length fs * (0.85 * ?v s)"
      using v1 by (intro mult_left_mono) simp_all
    then show ?thesis by (simp add: mult.assoc)
  qed
  have zero: "vel_x (particle s' i) = 0 \<and> vel_y (particle s' i) = 0"
    if small: "0.85 ^ length (f # fs) * ?v s \<le> 0.001"
  proof (cases "fs = []")
    case True
    then have eq: "s' = s1" using s'(1) by simp
    have "0.85 * ?v s \<le> 0.001" using small True by simp
    then show ?thesis
      unfolding eq p1 by (rule idle_update_snap)
  next
    case False
    then show ?thesis using s'(5) pow small by linarith
  qed
  have "run_frames rnd (f # fs) (Some s, k) = (Some s', k')"
    using s1(1) s'(1) by simp
  moreover have "?v s' \<le> 0.85 ^ length (f # fs) * ?v s"
    using s'(4) pow by linarith
  ultimately show ?case
    using s'(2,3) s1(3) zero by auto
qed

lemma pow_below_threshold:
  fixes v :: real
  assumes "0 \<le> v" and "log (20 / 17) (1000 * v) \<le> real n"
  shows "0.85 ^ n * v \<le> 0.001"
proof (cases "v = 0")
  case True
  then show ?thesis by simp
next
  case False
  then have pos: "0 < 1000 * v" using assms(1) by simp
  have "1000 * v = (20 / 17) powr log (20 / 17) (1000 * v)"
    using pos by simp
  also have "\<dots> \<le> (20 / 17) powr real n"
    using assms(2) by (intro powr_mono) simp_all
  also have "\<dots> = (20 / 17) ^ n"
    by (simp add: powr_realpow)
  finally have "1000 * v \<le> (20 / 17) ^ n" .
  then have "(17 / 20) ^ n * (1000 * v) \<le> (17 / 20) ^ n * (20 / 17) ^ n"
    by (intro mult_left_mono) simp_all
  also have "\<dots> = ((17 / 20) * (20 / 17)) ^ n"
    by (simp only: power_mult_distrib)
  also have "\<dots> = (1::real)"
    by simp
  finally have "(17 / 20) ^ n * v \<le> 1 / 1000"
    by simp
  moreover have "(0.85::real) = 17 / 20" by simp
  ultimately show ?thesis
    by (simp del: power_divide)
qed

section \<open>Properties of the integrator\<close>

text \<open>The example store is well formed.\<close>

lemma two_particles_wf: "store_wf two_particles \<and> currentCount two_particles = 2"
  by (simp add: store_wf_def currentCount_def two_particles_def)

text \<open>
  C4. With audio inactive in every frame (disabled, or the level at most 0.01), the
  velocity of every particle is exactly zero, in both components, after any number
  \<open>n \<ge> 1\<close> of frames with \<open>n \<ge> log\<^bsub>20/17\<^esub> (1000 \<sqdot> v)\<close>, where \<open>v\<close> is the initial
  speed of the particle: a bound that grows with the logarithm of the initial speed. The
  second part is the inactive step itself: the velocity is multiplied by 0.85; if the
  speed is then above 0.001 it is multiplied again by \<open>max 0.5 (1 - 2 \<sqdot> speed)\<close>, and
  otherwise both components are set to 0; the position update and the reflection follow.
\<close>

theorem idle_damping_convergence:
  assumes "store_wf s" and "i < currentCount s"
    and "\<forall>f \<in> set fs. \<not> (isAudioEnabled f \<and> getAudioLevel f > 0.01) \<and>
           particles (frame_PARAMS f) = currentCount s"
    and "fs \<noteq> []"
    and "log (20 / 17) (1000 * speed (vel_x (particle s i)) (vel_y (particle s i))) \<le> real (length fs)"
  shows "(\<exists>s' k'. run_frames rnd fs (Some s, k) = (Some s', k') \<and>
            vel_x (particle s' i) = 0 \<and> vel_y (particle s' i) = 0)
         \<and> particle_update P False lvl r (x, y, vx, vy) =
             (let v = speed (vx * 0.85) (vy * 0.85);
                  (wx, wy) = (if v > 0.001
                              then (vx * 0.85 * max 0.5 (1 - v * 2), vy * 0.85 * max 0.5 (1 - v * 2))
                              else (0, 0));
                  (x', vx') = reflect (x + wx) wx;
                  (y', vy') = reflect (y + wy) wy
              in (x', y', vx', vy'))"
proof -
  let ?v = "speed (vel_x (particle s i)) (vel_y (particle s i))"
  have small: "0.85 ^ length fs * ?v \<le> 0.001"
    using assms(5) by (intro pow_below_threshold speed_nonneg)
  obtain s' k' where "run_frames rnd fs (Some s, k) = (Some s', k')"
    "fs \<noteq> [] \<and> 0.85 ^ length fs * ?v \<le> 0.001 \<longrightarrow> vel_x (particle s' i) = 0 \<and> vel_y (particle s' i) = 0"
    using run_frames_idle [OF assms(1,2,3), of rnd k] by blast
  then have "\<exists>s' k'. run_frames rnd fs (Some s, k) = (Some s', k') \<and>
            vel_x (particle s' i) = 0 \<and> vel_y (particle s' i) = 0"
    using small assms(4) by blast
  moreover have "particle_update P False lvl r (x, y, vx, vy) =
             (let v = speed (vx * 0.85) (vy * 0.85);
                  (wx, wy) = (if v > 0.001
                              then (vx * 0.85 * max 0.5 (1 - v * 2), vy * 0.85 * max 0.5 (1 - v * 2))
                              else (0, 0));
                  (x', vx') = reflect (x + wx) wx;
                  (y', vy') = reflect (y + wy) wy
              in (x', y', vx', vy'))"
    unfolding particle_update_stages by (simp add: damped_velocity_def Let_def)
  ultimately show ?thesis
    by blast
qed

lemma speed_3_4: "speed (3 * c) (4 * c) = 5 * \<bar>c\<bar>"
proof -
  have "sqrt ((5::real)\<^sup>2) = 5"
    by (simp only: real_sqrt_abs abs_numeral)
  then have "speed 3 4 = 5"
    by (simp add: speed_def)
  then show ?thesis
    using speed_scale [of c 3 4] by (simp add: mult.commute)
qed

theorem idle_damping_convergence_witness:
  "store_wf two_particles \<and> (0::nat) < currentCount two_particles \<and>
   [silent_frame, silent_frame] \<noteq> [] \<and>
   log (20 / 17) (1000 * speed (vel_x (particle two_particles 0)) (vel_y (particle two_particles 0)))
     \<le> real (length [silent_frame, silent_frame]) \<and>
   (\<exists>s' k'. run_frames (\<lambda>k. 0) [silent_frame, silent_frame] (Some two_particles, 0) = (Some s', k') \<and>
       vel_x (particle s' 0) = 0 \<and> vel_y (particle s' 0) = 0)"
proof -
  have h1: "store_wf two_particles" and c: "currentCount two_particles = 2"
    using two_particles_wf by simp_all
  have h2: "0 < currentCount two_particles"
    using c by simp
  have h3: "\<forall>f \<in> set [silent_frame, silent_frame]. \<not> (isAudioEnabled f \<and> getAudioLevel f > 0.01) \<and>
           particles (frame_PARAMS f) = currentCount two_particles"
    by (simp add: c silent_frame_def)
  have h4: "[silent_frame, silent_frame] \<noteq> []"
    by simp
  have "vel_x (particle two_particles 0) = 3 * (2 / 7225)" "vel_y (particle two_particles 0) = 4 * (2 / 7225)"
    by (simp_all add: particle_def two_particles_def vel_x_def vel_y_def)
  then have "1000 * speed (vel_x (particle two_particles 0)) (vel_y (particle two_particles 0)) = (20 / 17) ^ 2"
    by (simp only: speed_3_4) (simp add: power2_eq_square)
  then have h5: "log (20 / 17) (1000 * speed (vel_x (particle two_particles 0)) (vel_y (particle two_particles 0)))
     \<le> real (length [silent_frame, silent_frame])"
    by (simp only: log_nat_power) simp
  show ?thesis
    using idle_damping_convergence [OF h1 h2 h3 h4 h5, of "\<lambda>k. 0" 0] h1 h2 h4 h5 by blast
qed

text \<open>
  C9. The state of particle \<open>i\<close> after one frame depends only on the state of particle
  \<open>i\<close> before it, the shared parameters, the audio readings and the random draws: two
  stores that agree on particle \<open>i\<close>, and are arbitrary otherwise (other particles
  permuted or altered, even a different number of them), give the same particle \<open>i\<close>
  after the frame, namely the update of particle \<open>i\<close> alone with draw number \<open>k + i\<close>.
\<close>

theorem no_inter_particle_coupling:
  assumes "store_wf s" and "store_wf t"
    and "i < currentCount s" and "i < currentCount t"
    and "particle s i = particle t i"
  shows "\<exists>s' t' k' k''.
           animate P audioEnabled audioLevel rnd (Some s, k) = (Some s', k') \<and>
           animate P audioEnabled audioLevel rnd (Some t, k) = (Some t', k'') \<and>
           particle s' i = particle t' i \<and>
           particle s' i =
             (if i < particles P
              then particle_update P (audioEnabled \<and> audioLevel > 0.01) audioLevel
                     (rnd (if audioEnabled \<and> audioLevel > 0.01 then k + i else k)) (particle s i)
              else particle s i)"
proof -
  obtain s' k' where s': "animate P audioEnabled audioLevel rnd (Some s, k) = (Some s', k')"
    "\<And>j. particle s' j =
           (if j < particles P \<and> j < currentCount s
            then particle_update P (audioEnabled \<and> audioLevel > 0.01) audioLevel
                   (rnd (if audioEnabled \<and> audioLevel > 0.01 then k + j else k)) (particle s j)
            else particle s j)"
    using animate_store [OF assms(1)] by blast
  obtain t' k'' where t': "animate P audioEnabled audioLevel rnd (Some t, k) = (Some t', k'')"
    "\<And>j. particle t' j =
           (if j < particles P \<and> j < currentCount t
            then particle_update P (audioEnabled \<and> audioLevel > 0.01) audioLevel
                   (rnd (if audioEnabled \<and> audioLevel > 0.01 then k + j else k)) (particle t j)
            else particle t j)"
    using animate_store [OF assms(2)] by blast
  have "particle s' i = particle t' i"
    unfolding s'(2) t'(2) using assms(3,4,5) by simp
  moreover have "particle s' i =
             (if i < particles P
              then particle_update P (audioEnabled \<and> audioLevel > 0.01) audioLevel
                     (rnd (if audioEnabled \<and> audioLevel > 0.01 then k + i else k)) (particle s i)
              else particle s i)"
    unfolding s'(2) using assms(3) by simp
  ultimately show ?thesis
    using s'(1) t'(1) by blast
qed

theorem no_inter_particle_coupling_witness:
  "store_wf two_particles \<and> store_wf three_particles \<and>
   (0::nat) < currentCount two_particles \<and> (0::nat) < currentCount three_particles \<and>
   particle two_particles 0 = particle three_particles 0 \<and>
   (\<exists>s' t' k' k''.
      animate initial_PARAMS True (1 / 2) (\<lambda>k. 1 / 4) (Some two_particles, 7) = (Some s', k') \<and>
      animate initial_PARAMS True (1 / 2) (\<lambda>k. 1 / 4) (Some three_particles, 7) = (Some t', k'') \<and>
      particle s' 0 = particle t' 0)"
proof -
  have h1: "store_wf two_particles" and h3: "0 < currentCount two_particles"
    using two_particles_wf by simp_all
  have h2: "store_wf three_particles" and h4: "0 < currentCount three_particles"
    by (simp_all add: store_wf_def currentCount_def three_particles_def)
  have h5: "particle two_particles 0 = particle three_particles 0"
    by (simp add: particle_def two_particles_def three_particles_def)
  show ?thesis
    using no_inter_particle_coupling [OF h1 h2 h3 h4 h5, of initial_PARAMS True "1 / 2" "\<lambda>k. 1 / 4" 7]
      h1 h2 h3 h4 h5 by blast
qed



lemma reflect_above:
  assumes "0 < d + w"
  shows "reflect (bound + d + w) w = (bound, - 0.7 * w)"
proof -
  have "0 < bound"
    by (simp add: bound_def PLANE_SIZE_def)
  then have "\<bar>bound + d + w\<bar> > bound" "sgn (bound + d + w) = 1"
    using assms by simp_all
  then show ?thesis
    by (simp add: reflect_def)
qed




section \<open>Creating and resizing the store\<close>

text \<open>
  The copy loop writes the entries of the old arrays below the preserved count and
  leaves the rest; the growth loop leaves everything below its start index.
\<close>

declare copyExisting.simps [simp del] spawnNear.simps [simp del] initRandom.simps [simp del]

lemma copyExisting_lengths:
  "length (fst (copyExisting cp cv pc i (np, nv))) = length np \<and>
   length (snd (copyExisting cp cv pc i (np, nv))) = length nv"
proof (induction cp cv pc i "(np, nv)" arbitrary: np nv rule: copyExisting.induct)
  case (1 cp cv pc i np nv)
  show ?case
  proof (cases "i < pc")
    case True
    then show ?thesis
      using 1 [OF True] by (subst (1 2) copyExisting.simps) simp
  next
    case False
    then show ?thesis
      by (subst (1 2) copyExisting.simps) simp
  qed
qed

lemma copyExisting_positions:
  assumes "j < length np"
  shows "fst (copyExisting cp cv pc i (np, nv)) ! j =
           (if i * 3 \<le> j \<and> j < pc * 3 then cp ! j else np ! j)"
  using assms
proof (induction cp cv pc i "(np, nv)" arbitrary: np nv rule: copyExisting.induct)
  case (1 cp cv pc i np nv)
  show ?case
  proof (cases "i < pc")
    case True
    let ?np = "np[i * 3 := cp ! (i * 3), i * 3 + 1 := cp ! (i * 3 + 1), i * 3 + 2 := cp ! (i * 3 + 2)]"
    let ?nv = "nv[i * 2 := cv ! (i * 2), i * 2 + 1 := cv ! (i * 2 + 1)]"
    have len: "j < length ?np" using 1(2) by simp
    have step: "fst (copyExisting cp cv pc i (np, nv)) ! j =
          (if Suc i * 3 \<le> j \<and> j < pc * 3 then cp ! j else ?np ! j)"
      using 1(1) [OF True len] True by (subst copyExisting.simps) simp
    consider "j < i * 3" | "j = i * 3" | "j = i * 3 + 1" | "j = i * 3 + 2" | "Suc i * 3 \<le> j"
      by fastforce
    then show ?thesis
    proof cases
      case 1
      then show ?thesis unfolding step by simp
    next
      case 2
      then show ?thesis unfolding step using True \<open>j < length np\<close> by simp
    next
      case 3
      then show ?thesis unfolding step using True \<open>j < length np\<close> by simp
    next
      case 4
      then show ?thesis unfolding step using True \<open>j < length np\<close> by simp
    next
      case 5
      then show ?thesis unfolding step by simp
    qed
  next
    case False
    then show ?thesis
      by (subst copyExisting.simps) auto
  qed
qed

lemma copyExisting_velocities:
  assumes "j < length nv"
  shows "snd (copyExisting cp cv pc i (np, nv)) ! j =
           (if i * 2 \<le> j \<and> j < pc * 2 then cv ! j else nv ! j)"
  using assms
proof (induction cp cv pc i "(np, nv)" arbitrary: np nv rule: copyExisting.induct)
  case (1 cp cv pc i np nv)
  show ?case
  proof (cases "i < pc")
    case True
    let ?np = "np[i * 3 := cp ! (i * 3), i * 3 + 1 := cp ! (i * 3 + 1), i * 3 + 2 := cp ! (i * 3 + 2)]"
    let ?nv = "nv[i * 2 := cv ! (i * 2), i * 2 + 1 := cv ! (i * 2 + 1)]"
    have len: "j < length ?nv" using 1(2) by simp
    have step: "snd (copyExisting cp cv pc i (np, nv)) ! j =
          (if Suc i * 2 \<le> j \<and> j < pc * 2 then cv ! j else ?nv ! j)"
      using 1(1) [OF True len] True by (subst copyExisting.simps) simp
    consider "j < i * 2" | "j = i * 2" | "j = i * 2 + 1" | "Suc i * 2 \<le> j"
      by fastforce
    then show ?thesis
    proof cases
      case 1
      then show ?thesis unfolding step by simp
    next
      case 2
      then show ?thesis unfolding step using True \<open>j < length nv\<close> by simp
    next
      case 3
      then show ?thesis unfolding step using True \<open>j < length nv\<close> by simp
    next
      case 4
      then show ?thesis unfolding step by simp
    qed
  next
    case False
    then show ?thesis
      by (subst copyExisting.simps) auto
  qed
qed

lemma spawnNear_keeps:
  "length (fst (fst (spawnNear cp cv pc n rnd i ((np, nv), k)))) = length np \<and>
   length (snd (fst (spawnNear cp cv pc n rnd i ((np, nv), k)))) = length nv \<and>
   (\<forall>j < i * 3. fst (fst (spawnNear cp cv pc n rnd i ((np, nv), k))) ! j = np ! j) \<and>
   (\<forall>j < i * 2. snd (fst (spawnNear cp cv pc n rnd i ((np, nv), k))) ! j = nv ! j)"
proof (induction cp cv pc n rnd i "((np, nv), k)" arbitrary: np nv k rule: spawnNear.induct)
  case (1 cp cv pc n rnd i np nv k)
  show ?case
  proof (cases "i < n")
    case True
    show ?thesis
      apply (subst (1 2 3 4) spawnNear.simps)
      using True 1 [OF True refl refl]
      by (simp add: Let_def)
  next
    case False
    then show ?thesis
      by (subst (1 2 3 4) spawnNear.simps) simp
  qed
qed

lemma createParticles_Some:
  "createParticles P rnd (Some old, k) =
     (let preserveCount = min (currentCount old) (particles P);
          copied = copyExisting (particlePositions old) (particleVelocities old) preserveCount 0
                     (replicate (particles P * 3) 0, replicate (particles P * 2) 0);
          grown = spawnNear (particlePositions old) (particleVelocities old) preserveCount
                    (particles P) rnd preserveCount (copied, k)
      in (Some \<lparr>particlePositions = fst (fst grown), particleVelocities = snd (fst grown)\<rparr>,
          snd grown))"
  by (simp add: createParticles_def Let_def split: prod.splits)

lemma createParticles_resize:
  assumes "createParticles P rnd (Some old, k) = (Some new, k')"
  shows "length (particlePositions new) = particles P * 3"
    and "length (particleVelocities new) = particles P * 2"
    and "j < min (currentCount old) (particles P) * 3 \<Longrightarrow> particlePositions new ! j = particlePositions old ! j"
    and "j < min (currentCount old) (particles P) * 2 \<Longrightarrow> particleVelocities new ! j = particleVelocities old ! j"
proof -
  let ?pc = "min (currentCount old) (particles P)"
  let ?np = "replicate (particles P * 3) (0::real)"
  let ?nv = "replicate (particles P * 2) (0::real)"
  let ?c = "copyExisting (particlePositions old) (particleVelocities old) ?pc 0 (?np, ?nv)"
  let ?g = "spawnNear (particlePositions old) (particleVelocities old) ?pc (particles P) rnd ?pc ((fst ?c, snd ?c), k)"
  have new: "particlePositions new = fst (fst ?g)" "particleVelocities new = snd (fst ?g)"
    using assms unfolding createParticles_Some by (auto simp: Let_def)
  have keeps: "length (fst (fst ?g)) = length (fst ?c)" "length (snd (fst ?g)) = length (snd ?c)"
    "\<forall>j < ?pc * 3. fst (fst ?g) ! j = fst ?c ! j" "\<forall>j < ?pc * 2. snd (fst ?g) ! j = snd ?c ! j"
    using spawnNear_keeps [of "particlePositions old" "particleVelocities old" ?pc "particles P" rnd ?pc "fst ?c" "snd ?c" k]
    by blast+
  have lens: "length (fst ?c) = particles P * 3" "length (snd ?c) = particles P * 2"
    using copyExisting_lengths [of "particlePositions old" "particleVelocities old" ?pc 0 ?np ?nv] by simp_all
  show "length (particlePositions new) = particles P * 3" "length (particleVelocities new) = particles P * 2"
    using new keeps(1,2) lens by simp_all
  show "particlePositions new ! j = particlePositions old ! j" if j: "j < ?pc * 3"
  proof -
    have "j < length ?np" using j by simp
    then have "fst ?c ! j = particlePositions old ! j"
      using j by (simp only: copyExisting_positions) simp
    then show ?thesis
      using new(1) keeps(3) j by simp
  qed
  show "particleVelocities new ! j = particleVelocities old ! j" if j: "j < ?pc * 2"
  proof -
    have "j < length ?nv" using j by simp
    then have "snd ?c ! j = particleVelocities old ! j"
      using j by (simp only: copyExisting_velocities) simp
    then show ?thesis
      using new(2) keeps(4) j by simp
  qed
qed

text \<open>
  C5. For every old count and every new count \<^verbatim>\<open>PARAMS.particles\<close>, a resize of a
  well-formed store gives a store of the new count whose first
  \<open>min oldCount newCount\<close> particles have the positions and velocities (and third
  coordinates) they had before, entry for entry: the two arrays agree with the old
  ones on their first \<open>3 \<sqdot> min oldCount newCount\<close> and \<open>2 \<sqdot> min oldCount newCount\<close> entries.
  Growing from 1000 to 2000 keeps the first 1000 particles; shrinking to 500 leaves
  the 500-particle prefix of the old store and nothing else.
\<close>

theorem resize_preserves_prefix:
  assumes "store_wf old"
  shows "\<exists>new k'. createParticles P rnd (Some old, k) = (Some new, k') \<and>
           store_wf new \<and> currentCount new = particles P \<and>
           take (min (currentCount old) (particles P) * 3) (particlePositions new) =
             take (min (currentCount old) (particles P) * 3) (particlePositions old) \<and>
           take (min (currentCount old) (particles P) * 2) (particleVelocities new) =
             take (min (currentCount old) (particles P) * 2) (particleVelocities old) \<and>
           (\<forall>i < min (currentCount old) (particles P). particle new i = particle old i)"
proof -
  let ?pc = "min (currentCount old) (particles P)"
  obtain new k' where c: "createParticles P rnd (Some old, k) = (Some new, k')"
    unfolding createParticles_Some by (simp add: Let_def)
  note r = createParticles_resize [OF c]
  have count: "currentCount new = particles P" and wf: "store_wf new"
    using r(1,2) by (simp_all add: store_wf_def currentCount_def)
  have oldlen: "?pc * 3 \<le> length (particlePositions old)" "?pc * 2 \<le> length (particleVelocities old)"
    using assms by (simp_all add: store_wf_def)
  have "take (?pc * 3) (particlePositions new) = take (?pc * 3) (particlePositions old)"
    using r(1,3) oldlen(1) by (intro nth_equalityI) simp_all
  moreover have "take (?pc * 2) (particleVelocities new) = take (?pc * 2) (particleVelocities old)"
    using r(2,4) oldlen(2) by (intro nth_equalityI) simp_all
  moreover have "particle new i = particle old i" if "i < ?pc" for i
  proof -
    have "i * 3 < ?pc * 3" "i * 3 + 1 < ?pc * 3" "i * 2 < ?pc * 2" "i * 2 + 1 < ?pc * 2"
      using that by linarith+
    then show ?thesis
      unfolding particle_def using r(3,4) by simp
  qed
  ultimately show ?thesis
    using c wf count by blast
qed

theorem resize_preserves_prefix_witness:
  "store_wf two_particles \<and>
   (\<exists>new k'. createParticles (initial_PARAMS\<lparr>particles := 3\<rparr>) (\<lambda>k. 1 / 2) (Some two_particles, 0) = (Some new, k') \<and>
      currentCount new = 3 \<and>
      take 6 (particlePositions new) = [1 / 2, - 1 / 2, 0, 119 / 100, 0, 0] \<and>
      take 4 (particleVelocities new) = [6 / 7225, 8 / 7225, 3 / 10, 4 / 10])"
proof -
  have h: "store_wf two_particles" and c: "currentCount two_particles = 2"
    using two_particles_wf by simp_all
  have t: "take 6 (particlePositions two_particles) = [1 / 2, - 1 / 2, 0, 119 / 100, 0, 0]"
    "take 4 (particleVelocities two_particles) = [6 / 7225, 8 / 7225, 3 / 10, 4 / 10]"
    by (simp_all add: two_particles_def)
  have "min (currentCount two_particles) (particles (initial_PARAMS\<lparr>particles := 3\<rparr>)) * 3 = 6"
    "min (currentCount two_particles) (particles (initial_PARAMS\<lparr>particles := 3\<rparr>)) * 2 = 4"
    "particles (initial_PARAMS\<lparr>particles := 3\<rparr>) = 3"
    by (simp_all add: c)
  then obtain new k' where
    "createParticles (initial_PARAMS\<lparr>particles := 3\<rparr>) (\<lambda>k. 1 / 2) (Some two_particles, 0) = (Some new, k')"
    "currentCount new = 3"
    "take 6 (particlePositions new) = take 6 (particlePositions two_particles)"
    "take 4 (particleVelocities new) = take 4 (particleVelocities two_particles)"
    using resize_preserves_prefix [OF h, of "initial_PARAMS\<lparr>particles := 3\<rparr>" "\<lambda>k. 1 / 2" 0]
    by (elim exE conjE) simp
  then show ?thesis
    using h unfolding t by blast
qed

section \<open>Audio levels that are not finite\<close>

text \<open>
  On finite numbers the update on JavaScript numbers is the update of the real model.
\<close>

lemma chladni_js_finite:
  "chladni_js P (Num x) (Num y) (Num m) (Num n) = Num (chladni P x y m n)"
  by (simp add: chladni_js_def chladni_def Let_def)

lemma sum_squares_not_neg: "\<not> (a * a + b * b < (0::real))"
  by (simp add: not_less)

lemma Math_max_finite: "Math_max (Num a) (Num b) = Num (max a b)"
  by (simp add: max_def)

lemma particle_update_js_stages:
  "particle_update_js P act lvl r (x, y, vx, vy) =
     (let (wx, wy) = damped_velocity_js P act lvl r (x, y, vx, vy);
          (x', vx') = reflect_js (x + wx) wx;
          (y', vy') = reflect_js (y + wy) wy
      in (x', y', vx', vy'))"
  by (simp add: particle_update_js_def damped_velocity_js_def reflect_js_def Let_def
      split: prod.splits)

lemma reflect_js_finite:
  "reflect_js (Num x) (Num vx) = (Num (fst (reflect x vx)), Num (snd (reflect x vx)))"
  by (simp add: reflect_js_def reflect_def bound_def PLANE_SIZE_def minus_jsnum_def)

lemma damped_velocity_js_finite:
  "damped_velocity_js P act (Num lvl) r (Num x, Num y, Num vx, Num vy) =
     (Num (fst (damped_velocity P act lvl r (x, y, vx, vy))),
      Num (snd (damped_velocity P act lvl r (x, y, vx, vy))))"
proof (cases act)
  case True
  then show ?thesis
    by (simp add: damped_velocity_js_def damped_velocity_def chladni_js_finite PLANE_SIZE_def Let_def)
next
  case False
  have nn: "\<not> vx * 0.85 * (vx * 0.85) + vy * 0.85 * (vy * 0.85) < 0"
    by (rule sum_squares_not_neg)
  have sq: "Math_sqrt (Num vx * Num 0.85 * (Num vx * Num 0.85) + Num vy * Num 0.85 * (Num vy * Num 0.85))
              = Num (speed (vx * 0.85) (vy * 0.85))"
    using nn by (simp add: speed_def)
  show ?thesis
    using False unfolding damped_velocity_js_def damped_velocity_def prod.case sq
    by (simp add: Math_max_finite minus_jsnum_def Let_def)
qed

lemma particle_update_js_finite:
  "particle_update_js P act (Num lvl) r (Num x, Num y, Num vx, Num vy) =
     finite_particle (particle_update P act lvl r (x, y, vx, vy))"
proof -
  obtain wx wy where w: "damped_velocity P act lvl r (x, y, vx, vy) = (wx, wy)"
    by fastforce
  show ?thesis
    unfolding particle_update_js_stages particle_update_stages damped_velocity_js_finite w
    by (simp add: reflect_js_finite finite_particle_def split: prod.splits)
qed

lemma particle_update_js_inactive:
  "particle_update_js P False lvl r pt = particle_update_js P False lvl' r' pt"
proof -
  obtain x y vx vy where pt: "pt = (x, y, vx, vy)" by (cases pt) auto
  have "damped_velocity_js P False lvl r (x, y, vx, vy) = damped_velocity_js P False lvl' r' (x, y, vx, vy)"
    by (simp add: damped_velocity_js_def)
  then show ?thesis
    unfolding pt particle_update_js_stages by simp
qed

lemma gate_closed:
  assumes "\<not> audioEnabled \<or> lvl = NaN \<or> lvl = NegInfinity \<or> (\<exists>l. lvl = Num l \<and> l \<le> 0.01)"
  shows "(audioEnabled \<and> lvl > Num 0.01) = False"
  using assms by auto

text \<open>
  C6, as amended. The integrator neither clamps nor sanitises the audio level; it only
  gates it with the test \<^verbatim>\<open>audioLevel > 0.01\<close>. A level for which the test is false
  (NaN, \<^verbatim>\<open>-Infinity\<close>, a finite level of at most 0.01) or any level while audio is
  disabled selects the inactive branch and is not used otherwise: the step is the step
  for level 0. A finite level with a finite particle gives the result of the real model,
  whose force \<open>value \<sqdot> vibrationStrength \<sqdot> (1 + 2 \<sqdot> audioLevel)\<close> is linear in the level
  and has no clamp; that result is finite.
\<close>

theorem audio_level_gate:
  "(\<not> audioEnabled \<or> lvl = NaN \<or> lvl = NegInfinity \<or> (\<exists>l. lvl = Num l \<and> l \<le> 0.01) \<longrightarrow>
      frame_update_js P audioEnabled lvl r pt = frame_update_js P audioEnabled (Num 0) r pt)
   \<and> frame_update_js P audioEnabled (Num l) r (Num x, Num y, Num vx, Num vy) =
       finite_particle (particle_update P (audioEnabled \<and> l > 0.01) l r (x, y, vx, vy))"
proof -
  have "frame_update_js P audioEnabled lvl r pt = frame_update_js P audioEnabled (Num 0) r pt"
    if "\<not> audioEnabled \<or> lvl = NaN \<or> lvl = NegInfinity \<or> (\<exists>l. lvl = Num l \<and> l \<le> 0.01)"
  proof -
    have "frame_update_js P audioEnabled lvl r pt = particle_update_js P False lvl r pt"
      unfolding frame_update_js_def gate_closed [OF that] by simp
    also have "\<dots> = particle_update_js P False (Num 0) r pt"
      by (rule particle_update_js_inactive)
    also have "\<dots> = frame_update_js P audioEnabled (Num 0) r pt"
      by (simp add: frame_update_js_def)
    finally show ?thesis .
  qed
  moreover have "frame_update_js P audioEnabled (Num l) r (Num x, Num y, Num vx, Num vy) =
       finite_particle (particle_update P (audioEnabled \<and> l > 0.01) l r (x, y, vx, vy))"
    by (simp add: frame_update_js_def particle_update_js_finite)
  ultimately show ?thesis
    by blast
qed

theorem audio_level_gate_witness:
  "frame_update_js initial_PARAMS True NaN (1 / 4) (Num (1 / 2), Num 0, Num 1, Num 0) =
     frame_update_js initial_PARAMS True (Num 0) (1 / 4) (Num (1 / 2), Num 0, Num 1, Num 0)
   \<and> frame_update_js initial_PARAMS True (Num 0) (1 / 4) (Num (1 / 2), Num 0, Num 1, Num 0) =
     finite_particle (particle_update initial_PARAMS False 0 (1 / 4) (1 / 2, 0, 1, 0))"
  using audio_level_gate [of True NaN initial_PARAMS "1 / 4" "(Num (1 / 2), Num 0, Num 1, Num 0)" 0 "1 / 2" 0 1 0]
  by simp

text \<open>
  C6 as stated fails: a waveform sample \<^verbatim>\<open>Infinity\<close> makes \<^verbatim>\<open>getAudioLevel\<close> return
  \<^verbatim>\<open>Infinity\<close>, which passes the gate. With mode numbers 1 and 1 and a particle at rest
  in the centre the field is 2 and the force is \<^verbatim>\<open>Infinity\<close>: for the draw 0 the step
  writes the velocity \<^verbatim>\<open>-Infinity\<close> and, through \<open>\<infinity> \<sqdot> sin 0\<close>, NaN into the second
  position and velocity components. With both coefficients 0 the force is \<open>0 \<sqdot> \<infinity>\<close>, that
  is NaN, and all four components written are NaN.
\<close>

theorem audio_level_counterexample:
  "getAudioLevel_js (Some [Num 0, Infinity]) True = Infinity
   \<and> frame_update_js (initial_PARAMS\<lparr>mode_m := 1, mode_n := 1\<rparr>) True Infinity 0 (Num 0, Num 0, Num 0, Num 0)
       = (Num (119 / 100), NaN, NegInfinity, NaN)
   \<and> frame_update_js (initial_PARAMS\<lparr>patternMixX := 0, patternMixY := 0\<rparr>) True Infinity 0
         (Num (1 / 2), Num (1 / 4), Num 0, Num 0)
       = (NaN, NaN, NaN, NaN)"
proof -
  let ?P = "initial_PARAMS\<lparr>mode_m := 1, mode_n := 1\<rparr>"
  let ?Q = "initial_PARAMS\<lparr>patternMixX := 0, patternMixY := 0\<rparr>"
  have lvl: "getAudioLevel_js (Some [Num 0, Infinity]) True = Infinity"
    by (simp add: getAudioLevel_js_def Math_max_of_def)
  have field: "chladni_js ?P (Num 0 div (Num PLANE_SIZE div Num 2)) (Num 0 div (Num PLANE_SIZE div Num 2))
                 (Num (mode_m ?P)) (Num (mode_n ?P)) = Num 2"
    by (simp add: chladni_js_def initial_PARAMS_def PLANE_SIZE_def Let_def)
  have dv: "damped_velocity_js ?P True Infinity 0 (Num 0, Num 0, Num 0, Num 0) = (Infinity, NaN)"
    unfolding damped_velocity_js_def prod.case field by (simp add: initial_PARAMS_def)
  have step: "frame_update_js ?P True Infinity 0 (Num 0, Num 0, Num 0, Num 0)
                = (Num (119 / 100), NaN, NegInfinity, NaN)"
    unfolding frame_update_js_def particle_update_js_stages
    by (simp add: dv reflect_js_def PLANE_SIZE_def minus_jsnum_def)
  have field0: "chladni_js ?Q (Num (1 / 2) div (Num PLANE_SIZE div Num 2)) (Num (1 / 4) div (Num PLANE_SIZE div Num 2))
                 (Num (mode_m ?Q)) (Num (mode_n ?Q)) = Num 0"
    by (simp add: chladni_js_def initial_PARAMS_def PLANE_SIZE_def Let_def)
  have dv0: "damped_velocity_js ?Q True Infinity 0 (Num (1 / 2), Num (1 / 4), Num 0, Num 0) = (NaN, NaN)"
    unfolding damped_velocity_js_def prod.case field0 by (simp add: initial_PARAMS_def)
  have step0: "frame_update_js ?Q True Infinity 0 (Num (1 / 2), Num (1 / 4), Num 0, Num 0) = (NaN, NaN, NaN, NaN)"
    unfolding frame_update_js_def particle_update_js_stages
    by (simp add: dv0 reflect_js_def)
  show ?thesis
    using lvl step step0 by simp
qed

section \<open>Rounding to single precision\<close>

text \<open>
  The rounding of a number is the rounded quotient by the unit in the last place times
  that unit, so a bound that is a multiple of the unit survives the rounding. Every
  number of magnitude at most 1.19 is therefore stored with magnitude at most
  \<open>9982444 / 2\<^sup>2\<^sup>3\<close>, the single-precision number next to 1.19, which is what 1.19
  itself is stored as.
\<close>

lemma roundTiesToEven_cases:
  "roundTiesToEven y = \<lfloor>y\<rfloor> \<or> (roundTiesToEven y = \<lfloor>y\<rfloor> + 1 \<and> 1 / 2 \<le> y - of_int \<lfloor>y\<rfloor>)"
  unfolding roundTiesToEven_def Let_def by (simp add: not_less)

lemma roundTiesToEven_le:
  assumes "y \<le> of_int k"
  shows "roundTiesToEven y \<le> k"
proof -
  have fl: "\<lfloor>y\<rfloor> \<le> k"
    using assms by (simp add: floor_le_iff)
  consider "roundTiesToEven y = \<lfloor>y\<rfloor>"
    | "roundTiesToEven y = \<lfloor>y\<rfloor> + 1" "1 / 2 \<le> y - of_int \<lfloor>y\<rfloor>"
    using roundTiesToEven_cases [of y] by blast
  then show ?thesis
  proof cases
    case 1
    then show ?thesis using fl by simp
  next
    case 2
    have "of_int \<lfloor>y\<rfloor> < (of_int k :: real)"
      using 2(2) assms by linarith
    then have "\<lfloor>y\<rfloor> < k"
      by simp
    then show ?thesis using 2(1) by simp
  qed
qed

lemma roundTiesToEven_nonneg:
  assumes "0 \<le> y"
  shows "0 \<le> roundTiesToEven y"
proof -
  have "0 \<le> \<lfloor>y\<rfloor>"
    using assms by simp
  then show ?thesis
    using roundTiesToEven_cases [of y] by linarith
qed

lemma abs_fround:
  assumes "x \<noteq> 0"
  shows "\<bar>fround x\<bar> =
           of_int (roundTiesToEven (\<bar>x\<bar> / 2 powr of_int (max \<lfloor>log 2 \<bar>x\<bar>\<rfloor> (- 126) - 23)))
             * 2 powr of_int (max \<lfloor>log 2 \<bar>x\<bar>\<rfloor> (- 126) - 23)"
proof -
  let ?u = "2 powr of_int (max \<lfloor>log 2 \<bar>x\<bar>\<rfloor> (- 126) - 23) :: real"
  let ?r = "roundTiesToEven (\<bar>x\<bar> / ?u)"
  have "0 \<le> \<bar>x\<bar> / ?u"
    by simp
  then have "0 \<le> ?r"
    by (rule roundTiesToEven_nonneg)
  then have nn: "0 \<le> (of_int ?r :: real) * ?u"
    by simp
  have "fround x = sgn x * (of_int ?r * ?u)"
    using assms unfolding fround_def Let_def by simp
  then have "\<bar>fround x\<bar> = \<bar>sgn x\<bar> * \<bar>of_int ?r * ?u\<bar>"
    by (simp only: abs_mult)
  also have "\<bar>sgn x\<bar> = 1"
    using assms by (simp add: abs_sgn_eq)
  also have "\<bar>of_int ?r * ?u\<bar> = of_int ?r * ?u"
    using nn by (rule abs_of_nonneg)
  finally show ?thesis
    by simp
qed

lemma fround_le_multiple:
  assumes "x \<noteq> 0" and "\<bar>x\<bar> \<le> of_int k * 2 powr of_int (max \<lfloor>log 2 \<bar>x\<bar>\<rfloor> (- 126) - 23)"
  shows "\<bar>fround x\<bar> \<le> of_int k * 2 powr of_int (max \<lfloor>log 2 \<bar>x\<bar>\<rfloor> (- 126) - 23)"
proof -
  let ?u = "2 powr of_int (max \<lfloor>log 2 \<bar>x\<bar>\<rfloor> (- 126) - 23) :: real"
  have u: "0 < ?u"
    by simp
  have "\<bar>x\<bar> / ?u \<le> of_int k"
    using assms(2) u by (simp add: pos_divide_le_eq)
  then have "roundTiesToEven (\<bar>x\<bar> / ?u) \<le> k"
    by (rule roundTiesToEven_le)
  then have "(of_int (roundTiesToEven (\<bar>x\<bar> / ?u)) :: real) * ?u \<le> of_int k * ?u"
    using u by (intro mult_right_mono) simp_all
  then show ?thesis
    unfolding abs_fround [OF assms(1)] .
qed

lemma two_powr_minus_23: "2 powr (- 23) = (1 / 8388608 :: real)"
  by (simp add: powr_neg_numeral)

lemma exponent_below_two:
  assumes "x \<noteq> 0" and "\<bar>x\<bar> < 2"
  shows "max \<lfloor>log 2 \<bar>x\<bar>\<rfloor> (- 126) \<le> 0"
proof -
  have "log 2 \<bar>x\<bar> < 1"
    using assms by (simp add: log_less_iff)
  then have "\<lfloor>log 2 \<bar>x\<bar>\<rfloor> \<le> 0"
    by (simp add: floor_le_iff)
  then show ?thesis
    by simp
qed

lemma fround_le_bound:
  assumes "\<bar>x\<bar> \<le> 119 / 100"
  shows "\<bar>fround x\<bar> \<le> 9982444 / 8388608"
proof (cases "x = 0")
  case True
  then show ?thesis
    by (simp add: fround_def)
next
  case False
  define e where "e = max \<lfloor>log 2 \<bar>x\<bar>\<rfloor> (- 126)"
  have e: "e \<le> 0"
    unfolding e_def using False assms by (intro exponent_below_two) simp_all
  define k :: int where "k = 9982444 * 2 ^ nat (- e)"
  have "(2::real) ^ nat (- e) = 2 powr real (nat (- e))"
    by (simp only: powr_realpow zero_less_numeral)
  also have "real (nat (- e)) = - of_int e"
    using e by simp
  finally have pw: "(2::real) ^ nat (- e) = 2 powr (- of_int e)" .
  have "of_int k * 2 powr of_int (e - 23) = (9982444 :: real) * (2 powr (- of_int e) * 2 powr (of_int e - 23))"
    unfolding k_def by (simp add: pw)
  also have "2 powr (- of_int e) * 2 powr (of_int e - 23) = (2 powr (- 23) :: real)"
    by (simp only: powr_add [symmetric]) simp
  finally have k: "of_int k * 2 powr of_int (e - 23) = (9982444 / 8388608 :: real)"
    by (simp add: two_powr_minus_23)
  have "\<bar>x\<bar> \<le> of_int k * 2 powr of_int (e - 23)"
    unfolding k using assms by simp
  then have "\<bar>fround x\<bar> \<le> of_int k * 2 powr of_int (e - 23)"
    unfolding e_def by (rule fround_le_multiple [OF False])
  then show ?thesis
    unfolding k .
qed

lemma fround_119: "fround (119 / 100) = 9982444 / 8388608"
proof -
  have "0 \<le> log 2 (119 / 100 :: real)" "log 2 (119 / 100 :: real) < 1"
    by (simp_all add: log_less_iff)
  then have fl: "\<lfloor>log 2 (119 / 100 :: real)\<rfloor> = 0"
    by (simp add: floor_eq_iff)
  have r: "roundTiesToEven (249561088 / 25) = 9982444"
    by (simp add: roundTiesToEven_def Let_def)
  show ?thesis
    by (simp add: fround_def Let_def fl two_powr_minus_23 r)
qed

lemma bound_value: "bound = 119 / 100"
  by (simp add: bound_def PLANE_SIZE_def)

lemma fround_bound: "fround bound = 9982444 / 8388608"
  unfolding bound_value by (rule fround_119)

lemma f32_particle_components:
  "pos_x (f32_particle pt) = fround (pos_x pt)" "pos_y (f32_particle pt) = fround (pos_y pt)"
  "vel_x (f32_particle pt) = fround (vel_x pt)" "vel_y (f32_particle pt) = fround (vel_y pt)"
  by (simp_all add: f32_particle_def pos_x_def pos_y_def vel_x_def vel_y_def split: prod.splits)

section \<open>The frames on the single-precision store\<close>

text \<open>
  As for the exact store: a frame gives a well-formed store of the same count, in which
  every particle is the rounded update of the particle it was.
\<close>

declare animate_loop_f32.simps [simp del]

lemma update_at_f32_lengths:
  "length (particlePositions (update_at_f32 P a l r i s)) = length (particlePositions s)"
  "length (particleVelocities (update_at_f32 P a l r i s)) = length (particleVelocities s)"
  by (simp_all add: update_at_f32_def Let_def split: prod.splits)

lemma update_at_f32_wf:
  "store_wf s \<Longrightarrow> store_wf (update_at_f32 P a l r i s) \<and> currentCount (update_at_f32 P a l r i s) = currentCount s"
  by (simp add: store_wf_def currentCount_def update_at_f32_lengths)

lemma update_at_f32_particle:
  assumes "store_wf s" "i < currentCount s"
  shows "particle (update_at_f32 P a l r i s) j =
           (if j = i then f32_particle (particle_update P a l r (particle s i)) else particle s j)"
proof (cases "j = i")
  case True
  have "i * 3 + 1 < length (particlePositions s)" "i * 2 + 1 < length (particleVelocities s)"
    using assms by (simp_all add: store_wf_def)
  then show ?thesis
    using True by (simp add: particle_def update_at_f32_def f32_particle_def Let_def split: prod.splits)
next
  case False
  then have "j * 3 \<noteq> i * 3" "j * 3 \<noteq> i * 3 + 1" "j * 3 + 1 \<noteq> i * 3" "j * 3 + 1 \<noteq> i * 3 + 1"
    "j * 2 \<noteq> i * 2" "j * 2 \<noteq> i * 2 + 1" "j * 2 + 1 \<noteq> i * 2" "j * 2 + 1 \<noteq> i * 2 + 1"
    by presburger+
  then show ?thesis
    using False by (simp add: particle_def update_at_f32_def Let_def split: prod.splits)
qed

lemma update_at_f32_beyond:
  assumes "store_wf s" "currentCount s \<le> i"
  shows "update_at_f32 P a l r i s = s"
proof -
  have "length (particlePositions s) \<le> i * 3" "length (particlePositions s) \<le> i * 3 + 1"
    "length (particleVelocities s) \<le> i * 2" "length (particleVelocities s) \<le> i * 2 + 1"
    using assms by (simp_all add: store_wf_def)
  then show ?thesis
    by (simp add: update_at_f32_def Let_def list_update_beyond split: prod.splits)
qed

lemma animate_loop_f32_step:
  "i < particles P \<Longrightarrow>
   animate_loop_f32 P a l rnd i (s, k) =
   animate_loop_f32 P a l rnd (Suc i) (update_at_f32 P a l (rnd k) i s, if a then Suc k else k)"
  by (subst animate_loop_f32.simps) simp

lemma animate_loop_f32_done: "\<not> i < particles P \<Longrightarrow> animate_loop_f32 P a l rnd i (s, k) = (s, k)"
  by (subst animate_loop_f32.simps) simp

lemma animate_loop_f32_shape:
  "store_wf s \<Longrightarrow>
   store_wf (fst (animate_loop_f32 P a l rnd i (s, k))) \<and>
   currentCount (fst (animate_loop_f32 P a l rnd i (s, k))) = currentCount s"
proof (induction P a l rnd i "(s, k)" arbitrary: s k rule: animate_loop_f32.induct)
  case (1 P a l rnd i s k)
  show ?case
  proof (cases "i < particles P")
    case True
    have "store_wf (update_at_f32 P a l (rnd k) i s)"
      "currentCount (update_at_f32 P a l (rnd k) i s) = currentCount s"
      using update_at_f32_wf [OF 1(2)] by simp_all
    with 1(1) [OF True] True show ?thesis
      by (simp add: animate_loop_f32_step)
  next
    case False
    with 1 show ?thesis by (simp add: animate_loop_f32_done)
  qed
qed

lemma animate_loop_f32_particle:
  "store_wf s \<Longrightarrow>
   particle (fst (animate_loop_f32 P a l rnd i (s, k))) j =
     (if i \<le> j \<and> j < particles P \<and> j < currentCount s
      then f32_particle (particle_update P a l (rnd (if a then k + (j - i) else k)) (particle s j))
      else particle s j)"
proof (induction P a l rnd i "(s, k)" arbitrary: s k rule: animate_loop_f32.induct)
  case (1 P a l rnd i s k)
  show ?case
  proof (cases "i < particles P")
    case False
    then show ?thesis by (auto simp: animate_loop_f32_done)
  next
    case True
    let ?s = "update_at_f32 P a l (rnd k) i s"
    let ?k = "if a then Suc k else k"
    have wf: "store_wf ?s" and cnt: "currentCount ?s = currentCount s"
      using update_at_f32_wf [OF 1(2)] by simp_all
    have step: "particle (fst (animate_loop_f32 P a l rnd i (s, k))) j =
        (if Suc i \<le> j \<and> j < particles P \<and> j < currentCount s
         then f32_particle (particle_update P a l (rnd (if a then ?k + (j - Suc i) else ?k)) (particle ?s j))
         else particle ?s j)"
      using 1(1) [OF True wf] by (simp add: animate_loop_f32_step [OF True] cnt)
    show ?thesis
    proof (cases "i < currentCount s")
      case inr: True
      have idx: "i < j \<Longrightarrow> Suc k + (j - Suc i) = k + (j - i)"
        by arith
      consider "j < i" | "j = i" | "i < j" by arith
      then show ?thesis
      proof cases
        case 1
        then show ?thesis
          unfolding step update_at_f32_particle [OF \<open>store_wf s\<close> inr] by simp
      next
        case 2
        then show ?thesis
          unfolding step update_at_f32_particle [OF \<open>store_wf s\<close> inr] using True inr by simp
      next
        case 3
        then show ?thesis
          unfolding step update_at_f32_particle [OF \<open>store_wf s\<close> inr] using idx by simp
      qed
    next
      case out: False
      then have "?s = s" using 1(2) by (simp add: update_at_f32_beyond)
      then show ?thesis
        unfolding step using out by auto
    qed
  qed
qed

lemma animate_f32_store:
  assumes "store_wf s"
  obtains s' k' where "animate_f32 P en lvl rnd (Some s, k) = (Some s', k')"
    and "store_wf s'" and "currentCount s' = currentCount s"
    and "\<And>j. particle s' j =
           (if j < particles P \<and> j < currentCount s
            then f32_particle (particle_update P (en \<and> lvl > 0.01) lvl
                   (rnd (if en \<and> lvl > 0.01 then k + j else k)) (particle s j))
            else particle s j)"
proof -
  let ?r = "animate_loop_f32 P (en \<and> lvl > 0.01) lvl rnd 0 (s, k)"
  have "animate_f32 P en lvl rnd (Some s, k) = (Some (fst ?r), snd ?r)"
    by (simp add: animate_f32_def Let_def split: prod.splits)
  moreover have "store_wf (fst ?r)" "currentCount (fst ?r) = currentCount s"
    using animate_loop_f32_shape [OF assms] by simp_all
  moreover have "particle (fst ?r) j =
           (if j < particles P \<and> j < currentCount s
            then f32_particle (particle_update P (en \<and> lvl > 0.01) lvl
                   (rnd (if en \<and> lvl > 0.01 then k + j else k)) (particle s j))
            else particle s j)" for j
    using animate_loop_f32_particle [OF assms, of P _ lvl rnd 0 k j] by simp
  ultimately show ?thesis
    using that by blast
qed

lemma run_frames_f32_append:
  "run_frames_f32 rnd (fs @ gs) st = run_frames_f32 rnd gs (run_frames_f32 rnd fs st)"
  by (induction fs arbitrary: st) simp_all

lemma run_frames_f32_contained:
  assumes "store_wf s" and "fs \<noteq> []"
    and "\<forall>f \<in> set fs. particles (frame_PARAMS f) = currentCount s"
  shows "\<exists>s' k'. run_frames_f32 rnd fs (Some s, k) = (Some s', k') \<and> store_wf s' \<and>
           currentCount s' = currentCount s \<and>
           (\<forall>i < currentCount s. \<exists>x y. \<bar>x\<bar> \<le> bound \<and> \<bar>y\<bar> \<le> bound \<and>
              pos_x (particle s' i) = fround x \<and> pos_y (particle s' i) = fround y)"
  using assms
proof (induction fs arbitrary: s k rule: rev_induct)
  case Nil
  then show ?case by simp
next
  case (snoc f fs)
  have "\<exists>s1 k1. run_frames_f32 rnd fs (Some s, k) = (Some s1, k1) \<and> store_wf s1 \<and>
           currentCount s1 = currentCount s"
  proof (cases "fs = []")
    case True
    then show ?thesis using snoc.prems by simp
  next
    case False
    then show ?thesis using snoc.IH [OF snoc.prems(1) False] snoc.prems(3) by auto blast
  qed
  then obtain s1 k1 where s1: "run_frames_f32 rnd fs (Some s, k) = (Some s1, k1)" "store_wf s1"
    "currentCount s1 = currentCount s" by blast
  let ?P = "frame_PARAMS f"
  let ?a = "isAudioEnabled f \<and> getAudioLevel f > 0.01"
  obtain s' k' where s': "animate_f32 ?P (isAudioEnabled f) (getAudioLevel f) rnd (Some s1, k1) = (Some s', k')"
    "store_wf s'" "currentCount s' = currentCount s1"
    "\<And>j. particle s' j =
           (if j < particles ?P \<and> j < currentCount s1
            then f32_particle (particle_update ?P ?a (getAudioLevel f)
                   (rnd (if ?a then k1 + j else k1)) (particle s1 j))
            else particle s1 j)"
    using animate_f32_store [OF s1(2)] by blast
  have pf: "particles ?P = currentCount s" using snoc.prems(3) by simp
  have "\<exists>x y. \<bar>x\<bar> \<le> bound \<and> \<bar>y\<bar> \<le> bound \<and>
              pos_x (particle s' i) = fround x \<and> pos_y (particle s' i) = fround y"
    if "i < currentCount s" for i
  proof -
    let ?u = "particle_update ?P ?a (getAudioLevel f) (rnd (if ?a then k1 + i else k1)) (particle s1 i)"
    have "particle s' i = f32_particle ?u"
      unfolding s'(4) using that pf s1(3) by simp
    then have "pos_x (particle s' i) = fround (pos_x ?u)" "pos_y (particle s' i) = fround (pos_y ?u)"
      by (simp_all add: f32_particle_components)
    moreover have "\<bar>pos_x ?u\<bar> \<le> bound" "\<bar>pos_y ?u\<bar> \<le> bound"
      using particle_update_in_bound [of ?P ?a "getAudioLevel f" _ "particle s1 i"] by blast+
    ultimately show ?thesis
      by blast
  qed
  then show ?case
    using s1 s' by (simp add: run_frames_f32_append)
qed

text \<open>
  C2, as amended. From any well-formed store, after each of 1000 frames (with arbitrary
  real pattern parameters, vibration strength, audio flags, finite audio levels and
  draws in every frame, the particle count of the parameters being that of the store)
  every position the store holds is the single-precision rounding of a position that
  the step computed within \<open>bound = PLANE_SIZE / 2 - 0.01\<close>, the reflection enforcing
  that bound. The stored position is therefore within \<open>fround bound\<close>, which is
  \<open>9982444 / 2\<^sup>2\<^sup>3 = 1.190000057220459\<close>, above \<open>bound\<close> and below \<open>PLANE_SIZE / 2\<close>.
  \<open>n\<close> ranges over the number of frames run so far.
\<close>

theorem stored_domain_containment:
  assumes "store_wf s"
    and "length fs = 1000"
    and "\<forall>f \<in> set fs. particles (frame_PARAMS f) = currentCount s"
    and "0 < n" and "n \<le> 1000"
  shows "fround bound = 9982444 / 8388608 \<and> bound < fround bound \<and> fround bound \<le> PLANE_SIZE / 2
       \<and> (\<exists>s' k'. run_frames_f32 rnd (take n fs) (Some s, k) = (Some s', k') \<and>
             store_wf s' \<and> currentCount s' = currentCount s \<and>
             (\<forall>i < currentCount s.
                (\<exists>x y. \<bar>x\<bar> \<le> bound \<and> \<bar>y\<bar> \<le> bound \<and>
                   pos_x (particle s' i) = fround x \<and> pos_y (particle s' i) = fround y) \<and>
                \<bar>pos_x (particle s' i)\<bar> \<le> fround bound \<and> \<bar>pos_y (particle s' i)\<bar> \<le> fround bound \<and>
                \<bar>pos_x (particle s' i)\<bar> \<le> PLANE_SIZE / 2 \<and> \<bar>pos_y (particle s' i)\<bar> \<le> PLANE_SIZE / 2))"
proof -
  have ne: "take n fs \<noteq> []"
    using assms(2,4) by auto
  have all: "\<forall>f \<in> set (take n fs). particles (frame_PARAMS f) = currentCount s"
    using assms(3) by (meson in_set_takeD)
  have vals: "fround bound = 9982444 / 8388608" "bound < fround bound" "fround bound \<le> PLANE_SIZE / 2"
    unfolding fround_bound by (simp_all add: bound_value PLANE_SIZE_def)
  obtain s' k' where r: "run_frames_f32 rnd (take n fs) (Some s, k) = (Some s', k')" "store_wf s'"
    "currentCount s' = currentCount s"
    "\<forall>i < currentCount s. \<exists>x y. \<bar>x\<bar> \<le> bound \<and> \<bar>y\<bar> \<le> bound \<and>
              pos_x (particle s' i) = fround x \<and> pos_y (particle s' i) = fround y"
    using run_frames_f32_contained [OF assms(1) ne all, of rnd k] by blast
  have "(\<exists>x y. \<bar>x\<bar> \<le> bound \<and> \<bar>y\<bar> \<le> bound \<and>
                   pos_x (particle s' i) = fround x \<and> pos_y (particle s' i) = fround y) \<and>
                \<bar>pos_x (particle s' i)\<bar> \<le> fround bound \<and> \<bar>pos_y (particle s' i)\<bar> \<le> fround bound \<and>
                \<bar>pos_x (particle s' i)\<bar> \<le> PLANE_SIZE / 2 \<and> \<bar>pos_y (particle s' i)\<bar> \<le> PLANE_SIZE / 2"
    if lt: "i < currentCount s" for i
  proof -
    obtain x y where xy: "\<bar>x\<bar> \<le> bound" "\<bar>y\<bar> \<le> bound"
      "pos_x (particle s' i) = fround x" "pos_y (particle s' i) = fround y"
      using r(4) lt by blast
    have b: "\<bar>x\<bar> \<le> 119 / 100" "\<bar>y\<bar> \<le> 119 / 100"
      using xy(1,2) unfolding bound_value by simp_all
    have "\<bar>fround x\<bar> \<le> 9982444 / 8388608" "\<bar>fround y\<bar> \<le> 9982444 / 8388608"
      by (rule fround_le_bound [OF b(1)], rule fround_le_bound [OF b(2)])
    then have "\<bar>fround x\<bar> \<le> fround bound" "\<bar>fround y\<bar> \<le> fround bound"
      by (simp_all only: fround_bound)
    then show ?thesis
      using xy vals(3) by force
  qed
  then show ?thesis
    using r(1,2,3) vals by blast
qed

theorem stored_domain_containment_witness:
  "store_wf two_particles \<and> length (replicate 1000 loud_frame) = 1000 \<and>
   (\<exists>s' k'. run_frames_f32 (constant_draws (1 / 4)) (take 1000 (replicate 1000 loud_frame))
               (Some two_particles, 0) = (Some s', k') \<and>
      store_wf s' \<and> currentCount s' = 2 \<and>
      \<bar>pos_x (particle s' 1)\<bar> \<le> 9982444 / 8388608 \<and> \<bar>pos_y (particle s' 1)\<bar> \<le> 9982444 / 8388608 \<and>
      \<bar>pos_x (particle s' 1)\<bar> \<le> PLANE_SIZE / 2 \<and> \<bar>pos_y (particle s' 1)\<bar> \<le> PLANE_SIZE / 2)"
proof -
  have h1: "store_wf two_particles" and c: "currentCount two_particles = 2"
    using two_particles_wf by simp_all
  have h2: "length (replicate 1000 loud_frame) = 1000"
    by simp
  have h3: "\<forall>f \<in> set (replicate 1000 loud_frame). particles (frame_PARAMS f) = currentCount two_particles"
    by (simp add: c loud_frame_def)
  have h4: "(0::nat) < 1000" and h5: "(1000::nat) \<le> 1000"
    by simp_all
  obtain s' k' where r:
    "run_frames_f32 (constant_draws (1 / 4)) (take 1000 (replicate 1000 loud_frame)) (Some two_particles, 0) = (Some s', k')"
    "store_wf s'" "currentCount s' = 2"
    "\<forall>i < 2. (\<exists>x y. \<bar>x\<bar> \<le> bound \<and> \<bar>y\<bar> \<le> bound \<and>
                   pos_x (particle s' i) = fround x \<and> pos_y (particle s' i) = fround y) \<and>
       \<bar>pos_x (particle s' i)\<bar> \<le> fround bound \<and> \<bar>pos_y (particle s' i)\<bar> \<le> fround bound \<and>
       \<bar>pos_x (particle s' i)\<bar> \<le> PLANE_SIZE / 2 \<and> \<bar>pos_y (particle s' i)\<bar> \<le> PLANE_SIZE / 2"
    using stored_domain_containment [OF h1 h2 h3 h4 h5, of "constant_draws (1 / 4)" 0] unfolding c by blast
  have "\<bar>pos_x (particle s' 1)\<bar> \<le> fround bound \<and> \<bar>pos_y (particle s' 1)\<bar> \<le> fround bound \<and>
       \<bar>pos_x (particle s' 1)\<bar> \<le> PLANE_SIZE / 2 \<and> \<bar>pos_y (particle s' 1)\<bar> \<le> PLANE_SIZE / 2"
    using r(4) by simp
  then show ?thesis
    using h1 h2 r(1,2,3) unfolding fround_bound by blast
qed

lemma speed_axis: "speed a 0 = \<bar>a\<bar>"
  by (simp add: speed_def)

lemma funpow_absorbed:
  assumes "0 < n" and "f x = y" and "f y = y"
  shows "(f ^^ n) x = y"
proof -
  have "(f ^^ Suc m) x = y" for m
    by (induction m) (simp_all add: assms)
  then show ?thesis
    using assms(1) by (cases n) simp_all
qed

text \<open>
  C2 as stated fails in two ways. A particle reflected at the upper bound is stored at
  \<open>9982444 / 2\<^sup>2\<^sup>3\<close>, outside the square of half-width \<open>bound\<close>: here the particle
  at \<open>(1, 0)\<close> with velocity \<open>(1 / 2, 0)\<close> after one silent frame. And the audio level is not
  arbitrary: at the level \<^verbatim>\<open>Infinity\<close> and with both coefficients 0 a particle inside
  the domain gets the position NaN in the first step and keeps it for all 1000, and
  \<^verbatim>\<open>Math.abs(NaN) <= PLANE_SIZE / 2\<close> is false.
\<close>

theorem domain_containment_counterexample:
  "store_wf one_particle
   \<and> pos_x (particle one_particle 0) = 1 \<and> pos_y (particle one_particle 0) = 0
   \<and> pos_x (particle (the (fst (animate_f32 (initial_PARAMS\<lparr>particles := 1\<rparr>) False 0 (constant_draws 0)
             (Some one_particle, 0)))) 0) = 9982444 / 8388608
   \<and> bound < 9982444 / 8388608
   \<and> (frame_update_js (initial_PARAMS\<lparr>patternMixX := 0, patternMixY := 0\<rparr>) True Infinity 0 ^^ 1000)
         (Num (1 / 2), Num (1 / 4), Num 0, Num 0) = (NaN, NaN, NaN, NaN)
   \<and> \<not> \<bar>NaN\<bar> \<le> Num (PLANE_SIZE / 2)"
proof -
  let ?P = "initial_PARAMS\<lparr>particles := 1\<rparr>"
  have wf: "store_wf one_particle" and c: "currentCount one_particle = 1"
    by (simp_all add: store_wf_def currentCount_def one_particle_def)
  obtain s' k' where s': "animate_f32 ?P False 0 (constant_draws 0) (Some one_particle, 0) = (Some s', k')"
    "\<And>j. particle s' j =
           (if j < particles ?P \<and> j < currentCount one_particle
            then f32_particle (particle_update ?P (False \<and> (0::real) > 0.01) 0
                   (constant_draws 0 (if False \<and> (0::real) > 0.01 then 0 + j else 0)) (particle one_particle j))
            else particle one_particle j)"
    using animate_f32_store [OF wf, of ?P False 0 "constant_draws 0" 0] by blast
  have p0: "particle one_particle 0 = (1, 0, 1 / 2, 0)"
    by (simp add: particle_def one_particle_def)
  have "speed (17 / 40) 0 = \<bar>17 / 40\<bar>"
    by (rule speed_axis)
  then have sp: "speed (1 / 2 * 0.85) (0 * 0.85) = 17 / 40"
    by simp
  have dv: "damped_velocity ?P False 0 0 (1, 0, 1 / 2, 0) = (17 / 80, 0)"
    unfolding damped_velocity_def prod.case sp by (simp add: Let_def)
  have "reflect (bound + (- 19 / 100) + 17 / 80) (17 / 80) = (bound, - 0.7 * (17 / 80))"
    by (rule reflect_above) simp
  then have "pos_x (particle_update ?P False 0 0 (1, 0, 1 / 2, 0)) = bound"
    unfolding particle_update_components [OF dv] by (simp add: bound_value)
  then have "pos_x (particle s' 0) = fround bound"
    unfolding s'(2) p0 by (simp add: c f32_particle_components constant_draws_def)
  then have stored: "pos_x (particle (the (fst (animate_f32 ?P False 0 (constant_draws 0) (Some one_particle, 0)))) 0)
      = 9982444 / 8388608"
    unfolding s'(1) fround_bound by simp
  let ?Q = "initial_PARAMS\<lparr>patternMixX := 0, patternMixY := 0\<rparr>"
  have field0: "chladni_js ?Q (Num (1 / 2) div (Num PLANE_SIZE div Num 2)) (Num (1 / 4) div (Num PLANE_SIZE div Num 2))
                 (Num (mode_m ?Q)) (Num (mode_n ?Q)) = Num 0"
    by (simp add: chladni_js_def initial_PARAMS_def PLANE_SIZE_def Let_def)
  have dv0: "damped_velocity_js ?Q True Infinity 0 (Num (1 / 2), Num (1 / 4), Num 0, Num 0) = (NaN, NaN)"
    unfolding damped_velocity_js_def prod.case field0 by (simp add: initial_PARAMS_def)
  have first: "frame_update_js ?Q True Infinity 0 (Num (1 / 2), Num (1 / 4), Num 0, Num 0) = (NaN, NaN, NaN, NaN)"
    unfolding frame_update_js_def particle_update_js_stages
    by (simp add: dv0 reflect_js_def)
  have dvN: "damped_velocity_js ?Q True Infinity 0 (NaN, NaN, NaN, NaN) = (NaN, NaN)"
    by (simp add: damped_velocity_js_def Let_def)
  have rest: "frame_update_js ?Q True Infinity 0 (NaN, NaN, NaN, NaN) = (NaN, NaN, NaN, NaN)"
    unfolding frame_update_js_def particle_update_js_stages
    by (simp add: dvN reflect_js_def)
  have run: "(frame_update_js ?Q True Infinity 0 ^^ 1000) (Num (1 / 2), Num (1 / 4), Num 0, Num 0) = (NaN, NaN, NaN, NaN)"
    using first rest by (intro funpow_absorbed) simp_all
  have "\<not> \<bar>NaN\<bar> \<le> Num (PLANE_SIZE / 2)"
    by (simp add: less_eq_jsnum_def)
  then show ?thesis
    using stored run wf p0 by (simp add: bound_value pos_x_def pos_y_def)
qed

section \<open>The field on the edges of the plate\<close>

text \<open>
  The partial sums of the arctangent series enclose the arctangent; with Machin's formula
  twelve terms at \<open>1 / 5\<close> and three at \<open>1 / 239\<close> put \<open>\<pi>\<close> above \<^verbatim>\<open>Math.PI\<close>.
\<close>

lemma arctan_partial_sums:
  fixes x :: real
  assumes "0 < x" and "x \<le> 1"
  shows "(\<Sum>k<2 * n. (- 1) ^ k * (1 / real (k * 2 + 1) * x ^ (k * 2 + 1))) \<le> arctan x"
    and "arctan x \<le> (\<Sum>k<2 * n + 1. (- 1) ^ k * (1 / real (k * 2 + 1) * x ^ (k * 2 + 1)))"
proof -
  let ?a = "\<lambda>k. 1 / real (k * 2 + 1) * x ^ (k * 2 + 1)"
  have small: "\<bar>x\<bar> \<le> 1"
    using assms by simp
  have first: "0 < ?a 0"
    using assms by simp
  have "(\<Sum>k. (- 1) ^ k * ?a k) \<in> {(\<Sum>k<2 * n. (- 1) ^ k * ?a k) .. (\<Sum>k<2 * n + 1. (- 1) ^ k * ?a k)}"
    using summable_Leibniz(2) [OF zeroseq_arctan_series [OF small] monoseq_arctan_series [OF small]] first
    by blast
  then show "(\<Sum>k<2 * n. (- 1) ^ k * ?a k) \<le> arctan x"
    and "arctan x \<le> (\<Sum>k<2 * n + 1. (- 1) ^ k * ?a k)"
    unfolding arctan_series [OF small] by simp_all
qed

lemma Math_PI_less_pi: "Math_PI < pi"
proof -
  have lower: "(\<Sum>k<2 * 6. (- 1) ^ k * (1 / real (k * 2 + 1) * (1 / 5) ^ (k * 2 + 1))) \<le> arctan (1 / 5 :: real)"
    by (rule arctan_partial_sums) simp_all
  have upper: "arctan (1 / 239 :: real) \<le> (\<Sum>k<2 * 1 + 1. (- 1) ^ k * (1 / real (k * 2 + 1) * (1 / 239) ^ (k * 2 + 1)))"
    by (rule arctan_partial_sums) simp_all
  have "pi = 16 * arctan (1 / 5) - 4 * arctan (1 / 239)"
    using machin by simp
  then show ?thesis
    using lower upper unfolding Math_PI_def by (simp add: eval_nat_numeral)
qed

lemma chladni_with_pi: "chladni_with pi sin P x y m n = chladni P x y m n"
  by (simp add: chladni_with_def chladni_def)

text \<open>
  With \<open>\<pi>\<close> itself in place of \<^verbatim>\<open>Math.PI\<close>, and integer mode numbers, the field
  vanishes on all four edges; this is the exact field, not the one the code computes.
\<close>

lemma chladni_exact_edges:
  assumes "m \<in> \<int>" and "n \<in> \<int>" and "x = - 1 \<or> x = 1 \<or> y = - 1 \<or> y = 1"
  shows "chladni_with pi sin P x y m n = 0"
  using assms(3) sin_pi_int_mult [OF assms(1)] sin_pi_int_mult [OF assms(2)]
  by (auto simp: chladni_with_def Let_def)

text \<open>
  C10, as amended. For all mode numbers and coefficients the field is exactly 0 where
  the normalised position has \<open>x = - 1\<close> or \<open>y = - 1\<close>: the remapped coordinate is 0 and
  the sine of 0 is 0, whatever the value of \<^verbatim>\<open>Math.PI\<close> and whatever \<^verbatim>\<open>Math.sin\<close>
  returns elsewhere. Consequently the force
  \<open>value \<sqdot> vibrationStrength \<sqdot> (1 + 2 \<sqdot> audioLevel)\<close> of line 241 is 0 there, whatever
  the coefficients, the vibration strength and the finite audio level are. Nothing is
  said of \<open>x = 1\<close> and \<open>y = 1\<close>, nor of a particle on the edge of the domain: a stored
  position is within \<open>fround bound\<close> after any step, so that its normalised coordinates
  lie strictly between \<open>- 1\<close> and 1.
\<close>

theorem lower_edge_field_zero:
  assumes "sine 0 = 0" and "x = - 1 \<or> y = - 1"
  shows "chladni_with PI sine P x y m n = 0
       \<and> chladni_with PI sine P x y m n * vibrationStrength P * (1 + audioLevel * 2) = 0
       \<and> (\<bar>px\<bar> \<le> fround bound \<longrightarrow> - 1 < px / (PLANE_SIZE / 2) \<and> px / (PLANE_SIZE / 2) < 1)"
proof -
  have "chladni_with PI sine P x y m n = 0"
    using assms by (auto simp: chladni_with_def Let_def)
  moreover have "- 1 < px / (PLANE_SIZE / 2) \<and> px / (PLANE_SIZE / 2) < 1" if "\<bar>px\<bar> \<le> fround bound"
  proof -
    have "- (9982444 / 8388608) \<le> px" "px \<le> 9982444 / 8388608"
      using that unfolding fround_bound by linarith+
    then have "- (12 / 10) < px" "px < 12 / 10"
      by linarith+
    then show ?thesis
      by (simp add: PLANE_SIZE_def)
  qed
  ultimately show ?thesis
    by simp
qed

theorem lower_edge_field_zero_witness:
  "sin (0::real) = 0
   \<and> chladni_with Math_PI sin initial_PARAMS (- 1) (3 / 10) 3 2 = 0
   \<and> chladni_with Math_PI sin initial_PARAMS (- 1) (3 / 10) 3 2 * vibrationStrength initial_PARAMS * (1 + 1 / 2 * 2) = 0
   \<and> \<bar>fround bound\<bar> \<le> fround bound
   \<and> - 1 < fround bound / (PLANE_SIZE / 2) \<and> fround bound / (PLANE_SIZE / 2) < 1"
proof -
  have h1: "sin (0::real) = 0"
    by simp
  have h2: "(- 1 :: real) = - 1 \<or> (3 / 10 :: real) = - 1"
    by simp
  have h3: "\<bar>fround bound\<bar> \<le> fround bound"
    unfolding fround_bound by simp
  show ?thesis
    using lower_edge_field_zero [where sine = sin and x = "- 1" and y = "3 / 10" and PI = Math_PI
        and P = initial_PARAMS and m = 3 and n = 2 and audioLevel = "1 / 2" and px = "fround bound", OF h1 h2]
      h1 h3
    by blast
qed

text \<open>
  C10 as stated fails. At \<open>x = 1\<close> the remapped coordinate is 1 and the sines are taken
  at multiples of \<^verbatim>\<open>Math.PI\<close>, which is not \<open>\<pi>\<close>: with mode numbers 1 and 1 at
  \<open>(1, 0)\<close> the field is \<open>2 \<sqdot> sin Math_PI \<sqdot> sin (Math_PI / 2)\<close>, which is positive. And
  the force is not 0 regardless of the audio level: at the level \<^verbatim>\<open>Infinity\<close> it is
  \<open>0 \<sqdot> \<infinity>\<close>, that is NaN, also where the field is 0.
\<close>

theorem upper_edge_field_counterexample:
  "0 < chladni_with Math_PI sin initial_PARAMS 1 0 1 1
   \<and> chladni_with Math_PI sin initial_PARAMS 1 0 1 1 \<noteq> 0
   \<and> chladni_js initial_PARAMS (Num (- 1)) (Num 0) (Num 3) (Num 2)
       * Num (vibrationStrength initial_PARAMS) * (Num 1 + Infinity * Num 2) = NaN"
proof -
  have pos: "0 < Math_PI"
    by (simp add: Math_PI_def)
  have "0 < sin Math_PI"
    using pos Math_PI_less_pi by (rule sin_gt_zero)
  moreover have "0 < sin (Math_PI / 2)"
    using pos Math_PI_less_pi by (intro sin_gt_zero) simp_all
  ultimately have "0 < sin Math_PI * sin (Math_PI / 2)"
    by simp
  then have field: "0 < chladni_with Math_PI sin initial_PARAMS 1 0 1 1"
    by (simp add: chladni_with_def initial_PARAMS_def Let_def)
  have "chladni_js initial_PARAMS (Num (- 1)) (Num 0) (Num 3) (Num 2) = Num 0"
    by (simp add: chladni_js_def initial_PARAMS_def Let_def)
  then have "chladni_js initial_PARAMS (Num (- 1)) (Num 0) (Num 3) (Num 2)
       * Num (vibrationStrength initial_PARAMS) * (Num 1 + Infinity * Num 2) = NaN"
    by (simp add: initial_PARAMS_def)
  then show ?thesis
    using field by simp
qed

end
